theory Spec2Isabelle
  imports Main "HOL-Library.Sublist"
begin

section \<open>Text\<close>

text \<open>
  A Python \<open>str\<close> is a sequence of Unicode code points and \<open>len\<close> counts code points, so a
  text is a list of code points. \<open>lit\<close> turns an ASCII literal of the source into a text.
\<close>

type_synonym str = "nat list"

definition lit :: "string \<Rightarrow> str" where
  "lit s = map of_char s"

definition NL :: nat where
  "NL = 10"

text \<open>\<open>str.isspace\<close> for one code point (the characters \<open>str.strip()\<close> removes).\<close>

definition isspace :: "nat \<Rightarrow> bool" where
  "isspace c \<longleftrightarrow>
     (9 \<le> c \<and> c \<le> 13) \<or> (28 \<le> c \<and> c \<le> 32) \<or> c = 133 \<or> c = 160 \<or> c = 5760 \<or>
     (8192 \<le> c \<and> c \<le> 8202) \<or> c = 8232 \<or> c = 8233 \<or> c = 8239 \<or> c = 8287 \<or> c = 12288"

definition strip :: "str \<Rightarrow> str" where
  "strip s = rev (dropWhile isspace (rev (dropWhile isspace s)))"

text \<open>\<open>s.replace(old, new)\<close> for a non-empty \<open>old\<close>: left to right, occurrences do not
  overlap. The counter is the number of characters of a matched occurrence still to skip.\<close>

fun replace_from :: "str \<Rightarrow> str \<Rightarrow> nat \<Rightarrow> str \<Rightarrow> str" where
  "replace_from old new k [] = []"
| "replace_from old new (Suc k) (c # cs) = replace_from old new k cs"
| "replace_from old new 0 (c # cs) =
     (if prefix old (c # cs) then new @ replace_from old new (length old - 1) cs
      else c # replace_from old new 0 cs)"

definition replace :: "str \<Rightarrow> str \<Rightarrow> str \<Rightarrow> str" where
  "replace s old new = replace_from old new 0 s"

text \<open>\<open>sub in s\<close>.\<close>

fun contains :: "str \<Rightarrow> str \<Rightarrow> bool" where
  "contains sub [] = (sub = [])"
| "contains sub (c # cs) = (prefix sub (c # cs) \<or> contains sub cs)"

text \<open>\<open>s.rfind(c, start, stop)\<close> for a single character \<open>c\<close>: the highest index of \<open>c\<close> in
  \<open>s[start:stop]\<close>; \<open>None\<close> stands for Python's \<open>-1\<close>.\<close>

primrec last_index :: "'a list \<Rightarrow> 'a \<Rightarrow> nat option" where
  "last_index [] c = None"
| "last_index (x # xs) c =
     (case last_index xs c of
        Some k \<Rightarrow> Some (Suc k)
      | None \<Rightarrow> if x = c then Some 0 else None)"

definition rfind :: "str \<Rightarrow> nat \<Rightarrow> nat \<Rightarrow> nat \<Rightarrow> nat option" where
  "rfind s c start stop =
     (case last_index (take (stop - start) (drop start s)) c of
        None \<Rightarrow> None
      | Some k \<Rightarrow> Some (start + k))"

section \<open>DiscordResponse: sanitising and chunked delivery\<close>

text \<open>
  \<open>DiscordResponse.sanitize\<close>. \<open>discord.utils.escape_mentions\<close> belongs to the discord
  library and is a parameter; U+200B is the zero-width space.
\<close>

definition sanitize :: "(str \<Rightarrow> str) \<Rightarrow> str \<Rightarrow> str" where
  "sanitize escape_mentions message =
     (let stripped = strip message;
          non_mentioned =
            replace (replace stripped (lit ''@everyone'') (64 # 8203 # lit ''everyone''))
              (lit ''@here'') (64 # 8203 # lit ''here'');
          escaped = escape_mentions non_mentioned
      in escaped)"

definition placeholder :: str where
  "placeholder = lit ''*I don't have anything to say.*''"

text \<open>The text \<open>write\<close> delivers: \<open>value\<close> after the empty check.\<close>

definition delivered :: "(str \<Rightarrow> str) \<Rightarrow> str \<Rightarrow> str" where
  "delivered escape_mentions s =
     (let v = sanitize escape_mentions s in if v = [] then placeholder else v)"

text \<open>One call of \<open>channel.send\<close>.\<close>

record send =
  body :: str
  reference :: bool

text \<open>
  One iteration of the \<open>while not done\<close> loop that sends a chunk: the remaining text at its
  start, the split index, the chunk sent, whether it was sent with \<open>reference=message\<close>,
  whether the chunk is the whole remaining text (the branch that sets \<open>done\<close>), and
  whether the character at the split index was a newline and was skipped.
\<close>

record chunk_step =
  remaining :: str
  split_index :: nat
  chunk_to_send :: str
  with_reference :: bool
  whole :: bool
  newline_skipped :: bool

text \<open>How the loop ends: \<open>i > 10\<close>, an empty chunk, no text left, or \<open>done\<close> set by the
  branch that sends the whole remaining text.\<close>

datatype stop = TooManyChunks | EmptyChunk | NoMoreMessage | Done

function chunk_loop :: "nat \<Rightarrow> bool \<Rightarrow> str \<Rightarrow> chunk_step list \<times> stop" where
  "chunk_loop i referenced message_remaining =
     (if i + 1 > 10 then ([], TooManyChunks)
      else
        let split_index =
              (case rfind message_remaining NL 0 2000 of
                 Some k \<Rightarrow> k
               | None \<Rightarrow> if length message_remaining \<le> 2000 then length message_remaining else 2000);
            slice = take split_index message_remaining;
            is_whole = (length slice = 0 \<and> 0 < length message_remaining
                          \<and> length message_remaining \<le> 2000);
            chunk = (if is_whole then message_remaining else slice)
        in if length chunk = 0 then ([], EmptyChunk)
           else
             let skipped = (split_index < length message_remaining
                              \<and> message_remaining ! split_index = NL);
                 rest = (if skipped then drop (split_index + 1) message_remaining
                         else drop split_index message_remaining);
                 step = \<lparr>remaining = message_remaining, split_index = split_index,
                          chunk_to_send = chunk, with_reference = \<not> referenced,
                          whole = is_whole, newline_skipped = skipped\<rparr>
             in if length rest = 0 then ([step], NoMoreMessage)
                else if is_whole then ([step], Done)
                else (case chunk_loop (i + 1) True rest of (steps, why) \<Rightarrow> (step # steps, why)))"
  by pat_completeness auto
termination
  by (relation "measure (\<lambda>(i, referenced, message_remaining). 11 - i)") auto

text \<open>
  The local variables of one loop iteration as functions of the remaining text; the lemmas
  about \<open>chunk_loop\<close> are stated with them.
\<close>

definition cut_index :: "str \<Rightarrow> nat" where
  "cut_index m = (case rfind m NL 0 2000 of
              Some k \<Rightarrow> k
            | None \<Rightarrow> if length m \<le> 2000 then length m else 2000)"

definition is_whole :: "str \<Rightarrow> bool" where
  "is_whole m \<longleftrightarrow> length (take (cut_index m) m) = 0 \<and> 0 < length m \<and> length m \<le> 2000"

definition chunk :: "str \<Rightarrow> str" where
  "chunk m = (if is_whole m then m else take (cut_index m) m)"

definition skipped :: "str \<Rightarrow> bool" where
  "skipped m \<longleftrightarrow> cut_index m < length m \<and> m ! cut_index m = NL"

definition rest :: "str \<Rightarrow> str" where
  "rest m = (if skipped m then drop (cut_index m + 1) m else drop (cut_index m) m)"

definition step_of :: "bool \<Rightarrow> str \<Rightarrow> chunk_step" where
  "step_of referenced m =
     \<lparr>remaining = m, split_index = cut_index m, chunk_to_send = chunk m,
      with_reference = \<not> referenced, whole = is_whole m, newline_skipped = skipped m\<rparr>"

text \<open>
  \<open>DiscordResponse.write\<close> with the iterations recorded: the loop when the text has 2000
  characters or more, one message with the whole text otherwise.
\<close>

definition write_trace :: "(str \<Rightarrow> str) \<Rightarrow> str \<Rightarrow> chunk_step list \<times> stop" where
  "write_trace escape_mentions s =
     (let v = delivered escape_mentions s
      in if length v \<ge> 2000 then chunk_loop 0 False v
         else ([\<lparr>remaining = v, split_index = length v, chunk_to_send = v,
                  with_reference = True, whole = True, newline_skipped = False\<rparr>],
               NoMoreMessage))"

definition send_of :: "chunk_step \<Rightarrow> send" where
  "send_of st = \<lparr>body = chunk_to_send st, reference = with_reference st\<rparr>"

text \<open>The messages \<open>write\<close> sends to the channel, in order.\<close>

definition write_response :: "(str \<Rightarrow> str) \<Rightarrow> str \<Rightarrow> send list" where
  "write_response escape_mentions s = map send_of (fst (write_trace escape_mentions s))"



text \<open>\<open>k\<close> is the offset of the last newline within the first 2000 characters of \<open>m\<close>.\<close>

definition last_newline_at :: "str \<Rightarrow> nat \<Rightarrow> bool" where
  "last_newline_at m k \<longleftrightarrow>
     k < 2000 \<and> k < length m \<and> m ! k = NL \<and>
     (\<forall>j \<in> {k + 1 ..< min 2000 (length m)}. m ! j \<noteq> NL)"

section \<open>Sessions, serialisation and the store\<close>

datatype role = User | Assistant

definition role_name :: "role \<Rightarrow> str" where
  "role_name r = (case r of User \<Rightarrow> lit ''user'' | Assistant \<Rightarrow> lit ''assistant'')"

record turn =
  role :: role
  content :: str

text \<open>
  \<open>json.dumps\<close> of a list of \<open>{'role': ..., 'content': ...}\<close> dictionaries with the default
  separators and \<open>ensure_ascii=True\<close>: every character outside the printable ASCII range is
  escaped, a code point above U+FFFF as a surrogate pair.
\<close>

definition hex_digit :: "nat \<Rightarrow> nat" where
  "hex_digit d = (if d < 10 then 48 + d else 87 + d)"

definition u_escape :: "nat \<Rightarrow> str" where
  "u_escape n =
     [92, 117, hex_digit (n div 4096 mod 16), hex_digit (n div 256 mod 16),
      hex_digit (n div 16 mod 16), hex_digit (n mod 16)]"

definition json_char :: "nat \<Rightarrow> str" where
  "json_char c =
     (if c = 34 then [92, 34]
      else if c = 92 then [92, 92]
      else if c = 10 then [92, 110]
      else if c = 13 then [92, 114]
      else if c = 9 then [92, 116]
      else if c = 12 then [92, 102]
      else if c = 8 then [92, 98]
      else if 32 \<le> c \<and> c \<le> 126 then [c]
      else if c < 65536 then u_escape c
      else u_escape (55296 + ((c - 65536) div 1024) mod 1024)
             @ u_escape (56320 + (c - 65536) mod 1024))"

definition json_string :: "str \<Rightarrow> str" where
  "json_string s = 34 # concat (map json_char s) @ [34]"

definition json_turn :: "turn \<Rightarrow> str" where
  "json_turn t =
     123 # json_string (lit ''role'') @ [58, 32] @ json_string (role_name (role t)) @ [44, 32]
       @ json_string (lit ''content'') @ [58, 32] @ json_string (content t) @ [125]"

fun join :: "str \<Rightarrow> str list \<Rightarrow> str" where
  "join sep [] = []"
| "join sep [x] = x"
| "join sep (x # y # ys) = x @ sep @ join sep (y # ys)"

definition json_dumps :: "turn list \<Rightarrow> str" where
  "json_dumps messages = 91 # join [44, 32] (map json_turn messages) @ [93]"

text \<open>
  The Redis commands that change the store: \<open>SET key value EX seconds\<close> and \<open>DEL key\<close>. A key
  is \<open>discollama:channel:<channel id>\<close> and is represented by the channel id.
\<close>

datatype redis_cmd = SET str "turn list" nat | DEL str

text \<open>
  The world one handler runs in: the store (the value under a key is the JSON text of a turn
  list and is kept decoded, \<open>json.loads (json.dumps ms) = ms\<close>), the log of the commands
  that changed it, the messages sent to the chat channel, and the readiness flag. The store
  is reliable here and sending a message succeeds: the \<open>except\<close> branches for a Redis
  failure, the expiry of a key and a failing \<open>send\<close> are not part of the model, and one
  handler runs at a time.
\<close>

record world =
  store :: "str \<rightharpoonup> turn list"
  redis_log :: "redis_cmd list"
  outbox :: "send list"
  ready :: bool

record config =
  admin_id :: str
  chat_channel_id :: str
  bot_title :: str
  self_mention :: str
  chat_max_length :: int
  ctx :: int
  msg_max_chars :: int
  stream :: bool
  backend :: str

text \<open>\<open>bot_title\<close> is \<open>self.bot_name.title()\<close> and \<open>self_mention\<close> is the mention of the
  bot's own user: \<open><@\<close>, the id of \<open>self.discord.user\<close> and \<open>>\<close>.\<close>

datatype exn = TypeError | IndexError | OtherError

definition load_channel :: "world \<Rightarrow> str \<Rightarrow> turn list" where
  "load_channel w channel_id = (case store w channel_id of Some ms \<Rightarrow> ms | None \<Rightarrow> [])"

definition flush_channel :: "world \<Rightarrow> str \<Rightarrow> world" where
  "flush_channel w channel_id =
     w\<lparr>store := (store w)(channel_id := None), redis_log := redis_log w @ [DEL channel_id]\<rparr>"

text \<open>\<open>s[k:]\<close> for a Python integer \<open>k\<close>: a negative \<open>k\<close> counts from the end.\<close>

definition slice_from :: "str \<Rightarrow> int \<Rightarrow> str" where
  "slice_from s k = (if k < 0 then drop (nat (int (length s) + k)) s else drop (nat k) s)"

text \<open>\<open>while len(messages) >= self.chat_max_length: messages.pop(0)\<close>; \<open>pop(0)\<close> on an
  empty list raises \<open>IndexError\<close>.\<close>

fun evict :: "int \<Rightarrow> turn list \<Rightarrow> exn + turn list" where
  "evict mx [] = (if int (length ([] :: turn list)) \<ge> mx then Inl IndexError else Inr [])"
| "evict mx (m # ms) = (if int (length (m # ms)) \<ge> mx then evict mx ms else Inr (m # ms))"

definition save_message :: "config \<Rightarrow> world \<Rightarrow> str \<Rightarrow> str \<Rightarrow> role \<Rightarrow> exn + world" where
  "save_message cfg w channel_id message r =
     (if strip message = [] then Inr w
      else
        let content_str =
              (if int (length message) > msg_max_chars cfg
               then slice_from message (- msg_max_chars cfg) else message);
            new_turn = \<lparr>role = r, content = content_str\<rparr>;
            messages = load_channel w channel_id
        in case evict (chat_max_length cfg) messages of
             Inl e \<Rightarrow> Inl e
           | Inr kept \<Rightarrow>
               Inr (w\<lparr>store := (store w)(channel_id \<mapsto> kept @ [new_turn]),
                      redis_log := redis_log w @ [SET channel_id (kept @ [new_turn]) (60 * 60 * 24 * 7)]\<rparr>))"

text \<open>The local variable \<open>content_str\<close> of \<open>save_message\<close>, and the turn an append of a
  content and a role stores.\<close>

definition truncated :: "config \<Rightarrow> str \<Rightarrow> str" where
  "truncated cfg message =
     (if int (length message) > msg_max_chars cfg
      then slice_from message (- msg_max_chars cfg) else message)"

definition stored_turn :: "config \<Rightarrow> str \<times> role \<Rightarrow> turn" where
  "stored_turn cfg x = \<lparr>role = snd x, content = truncated cfg (fst x)\<rparr>"

text \<open>The last \<open>n\<close> elements of a list, and what the eviction loop keeps of the stored turns
  when the maximum is at least 1: the last \<open>chat_max_length - 1\<close> of them.\<close>

definition last_n :: "nat \<Rightarrow> 'a list \<Rightarrow> 'a list" where
  "last_n n xs = drop (length xs - n) xs"

text \<open>The per-turn cap as the design states it: a content longer than the cap is replaced
  by its suffix of exactly \<open>cap\<close> characters, any other content is kept.\<close>

definition cut_to_cap :: "int \<Rightarrow> str \<Rightarrow> str" where
  "cut_to_cap cap s = (if int (length s) > cap then last_n (nat cap) s else s)"

definition kept_turns :: "config \<Rightarrow> turn list \<Rightarrow> turn list" where
  "kept_turns cfg ms = last_n (nat (chat_max_length cfg - 1)) ms"

text \<open>A run of appends to one channel, each a call of \<open>save_message\<close> of its own: a call
  that raises leaves the store as it was.\<close>

fun appends :: "config \<Rightarrow> world \<Rightarrow> str \<Rightarrow> (str \<times> role) list \<Rightarrow> world" where
  "appends cfg w channel_id [] = w"
| "appends cfg w channel_id ((message, r) # xs) =
     (case save_message cfg w channel_id message r of
        Inl e \<Rightarrow> appends cfg w channel_id xs
      | Inr w' \<Rightarrow> appends cfg w' channel_id xs)"

section \<open>Bot.chat\<close>

text \<open>The trimming of the loaded messages to \<open>ctx * 4\<close> characters of JSON.\<close>

fun trim_loop :: "int \<Rightarrow> turn list \<Rightarrow> turn list" where
  "trim_loop budget [] = []"
| "trim_loop budget (m # ms) =
     (if int (length (json_dumps (m # ms))) - budget > 0 then trim_loop budget ms else m # ms)"

definition trim :: "int \<Rightarrow> turn list \<Rightarrow> turn list" where
  "trim c local_messages =
     (if int (length (json_dumps local_messages)) > c * 4 then trim_loop (c * 4) local_messages
      else local_messages)"

text \<open>
  What the backend and the discord library do is not code of the bot: a streaming call
  yields the \<open>content\<close> of its parts and then ends, normally or by raising; a single call
  returns the \<open>content\<close> of its answer or raises.
\<close>

record env =
  escape_mentions :: "str \<Rightarrow> str"
  ollama_stream :: "turn list \<Rightarrow> str list \<times> exn option"
  ollama_chat :: "turn list \<Rightarrow> exn + str"
  openai_create :: "turn list \<Rightarrow> exn + str"

definition fallback_phrase :: str where
  "fallback_phrase = lit ''I am sorry, I am unable to respond at the moment.''"

text \<open>\<open>if response_message: await self.save_message(channel_id, response_message, 'assistant')\<close>,
  with the exception the save may raise.\<close>

definition save_response :: "config \<Rightarrow> world \<Rightarrow> str \<Rightarrow> str \<Rightarrow> exn + world" where
  "save_response cfg w channel_id response_message =
     (if response_message \<noteq> [] then save_message cfg w channel_id response_message Assistant
      else Inr w)"

text \<open>The body of the outer \<open>try\<close> of \<open>chat\<close>: the value returned or the exception raised,
  and the world left behind.\<close>

definition chat_body :: "config \<Rightarrow> env \<Rightarrow> world \<Rightarrow> str \<Rightarrow> (exn + str) \<times> world" where
  "chat_body cfg e w channel_id =
     (let local_messages = trim (ctx cfg) (load_channel w channel_id);
          single = (\<lambda>u :: unit.
            case ollama_chat e local_messages of
              Inl x \<Rightarrow> (Inl x, w)
            | Inr response_message \<Rightarrow>
                (case save_response cfg w channel_id response_message of
                   Inl x \<Rightarrow> (Inl x, w)
                 | Inr w' \<Rightarrow>
                     (Inr (if response_message = [] then fallback_phrase else response_message),
                      w')))
      in if backend cfg = lit ''ollama'' then
           if stream cfg then
             (case ollama_stream e local_messages of
                (parts, Some TypeError) \<Rightarrow> single ()
              | (parts, Some x) \<Rightarrow> (Inl x, w)
              | (parts, None) \<Rightarrow>
                  (let response_message = concat parts
                   in case save_response cfg w channel_id response_message of
                        Inl TypeError \<Rightarrow> single ()
                      | Inl x \<Rightarrow> (Inl x, w)
                      | Inr w' \<Rightarrow>
                          (Inr (if response_message = [] then fallback_phrase
                                else response_message), w')))
           else single ()
         else
           (case openai_create e local_messages of
              Inl x \<Rightarrow> (Inr fallback_phrase, w)
            | Inr response_message \<Rightarrow>
                (case save_response cfg w channel_id response_message of
                   Inl x \<Rightarrow> (Inr fallback_phrase, w)
                 | Inr w' \<Rightarrow>
                     (Inr (if response_message = [] then fallback_phrase else response_message),
                      w'))))"

text \<open>The single call of \<open>chat_body\<close> (its local function \<open>single\<close>) as a function of
  the trimmed messages.\<close>

definition single_call :: "config \<Rightarrow> env \<Rightarrow> world \<Rightarrow> str \<Rightarrow> turn list \<Rightarrow> (exn + str) \<times> world" where
  "single_call cfg e w c ms =
     (case ollama_chat e ms of
        Inl x \<Rightarrow> (Inl x, w)
      | Inr r \<Rightarrow>
          (case save_response cfg w c r of
             Inl x \<Rightarrow> (Inl x, w)
           | Inr w' \<Rightarrow> (Inr (if r = [] then fallback_phrase else r), w')))"

definition chat :: "config \<Rightarrow> env \<Rightarrow> world \<Rightarrow> str \<Rightarrow> str \<times> world" where
  "chat cfg e w channel_id =
     (case chat_body cfg e w channel_id of
        (Inl x, w') \<Rightarrow> (fallback_phrase, w')
      | (Inr response, w') \<Rightarrow> (response, w'))"

text \<open>
  Whether the backend call of \<open>chat\<close> fails or yields nothing, as the design describes it:
  the streaming shape falls back once to the single call when it is not supported
  (\<open>TypeError\<close>), and the call that decides is the last one made.
\<close>

definition no_answer :: "exn + str \<Rightarrow> bool" where
  "no_answer r = (case r of Inl x \<Rightarrow> True | Inr response \<Rightarrow> response = [])"

definition backend_fails :: "config \<Rightarrow> env \<Rightarrow> turn list \<Rightarrow> bool" where
  "backend_fails cfg e messages =
     (if backend cfg = lit ''ollama'' then
        if stream cfg then
          (case ollama_stream e messages of
             (parts, Some TypeError) \<Rightarrow> no_answer (ollama_chat e messages)
           | (parts, Some x) \<Rightarrow> True
           | (parts, None) \<Rightarrow> concat parts = [])
        else no_answer (ollama_chat e messages)
      else no_answer (openai_create e messages))"

section \<open>Bot.reset_command\<close>

record interaction =
  user_id :: str
  interaction_channel_id :: "str option"
  interaction_guild_name :: "str option"

text \<open>\<open>user_id\<close> is \<open>str(interaction.user.id)\<close>; the channel id is \<open>None\<close> when
  \<open>interaction.channel_id\<close> is falsy, the guild name when \<open>interaction.guild\<close> is.\<close>

definition seed_greeting :: "str \<Rightarrow> str" where
  "seed_greeting guild_name = lit ''*You joined the chat! - You joined '' @ guild_name @ lit ''.*''"

text \<open>The result is the text sent with \<open>interaction.followup.send\<close> and the world.\<close>

definition reset_command :: "config \<Rightarrow> world \<Rightarrow> interaction \<Rightarrow> str \<times> world" where
  "reset_command cfg w ia =
     (if admin_id cfg \<noteq> [] \<and> user_id ia \<noteq> admin_id cfg
      then (lit ''You are not authorized to reset the chat.'', w)
      else
        case interaction_channel_id ia of
          None \<Rightarrow> (lit ''Unable to determine channel to reset.'', w)
        | Some channel_id \<Rightarrow>
            (let w1 = flush_channel w channel_id;
                 guild_name = (case interaction_guild_name ia of
                                 Some n \<Rightarrow> n | None \<Rightarrow> lit ''this chat'')
             in case save_message cfg w1 channel_id (seed_greeting guild_name) Assistant of
                  Inl x \<Rightarrow> (lit ''An error occurred while resetting the chat.'', w1)
                | Inr w2 \<Rightarrow> (lit ''Chat reset.'', w2)))"

text \<open>The guild name \<open>reset_command\<close> puts in the greeting.\<close>

definition reset_guild_name :: "interaction \<Rightarrow> str" where
  "reset_guild_name ia = (case interaction_guild_name ia of Some n \<Rightarrow> n | None \<Rightarrow> lit ''this chat'')"

section \<open>Bot.on_message\<close>

record message =
  message_id :: str
  created_at :: str
  author_name :: str
  author_id :: str
  author_bot :: bool
  from_self :: bool
  reply_to :: "str option"
  channel_id :: str
  channel_name :: "str option"
  is_dm :: bool
  guild_name :: str
  mentions_bot :: bool
  message_content :: str

text \<open>
  The ids and the time are the texts \<open>str\<close> and \<open>strftime\<close> give; \<open>from_self\<close> is
  \<open>self.discord.user == message.author\<close> and \<open>mentions_bot\<close> is
  \<open>self.discord.user.mentioned_in(message)\<close>; \<open>channel_name\<close> is \<open>None\<close> when reading
  \<open>message.channel.name\<close> raises. With these fields present the outer \<open>except\<close> of
  \<open>Bot.message\<close>, which returns the empty text, is not taken.
\<close>

text \<open>\<open>Bot.message\<close>: the line saved for a message.\<close>

definition message_line :: "message \<Rightarrow> str \<Rightarrow> str" where
  "message_line msg c =
     (let said = (case reply_to msg of
                    None \<Rightarrow> lit ''said'' | Some rid \<Rightarrow> lit ''replied to '' @ rid);
          chat_name = (case channel_name msg of Some n \<Rightarrow> n | None \<Rightarrow> lit ''this chat'')
      in lit ''**('' @ message_id msg @ lit '') at '' @ created_at msg @ lit '' ''
           @ author_name msg @ lit ''('' @ author_id msg @ lit '') '' @ said @ lit '' in ''
           @ chat_name @ lit ''**: '' @ c)"

definition denied_text :: "message \<Rightarrow> str" where
  "denied_text msg = author_name msg @ lit '' tried to reset the chat, but was denied.''"

definition deliver :: "env \<Rightarrow> world \<Rightarrow> str \<Rightarrow> world" where
  "deliver e w s = w\<lparr>outbox := outbox w @ write_response (escape_mentions e) s\<rparr>"

text \<open>The test that a message is not addressed to the bot, and the local variable
  \<open>content\<close> of \<open>on_message\<close> before the reset check.\<close>

definition not_for_us :: "message \<Rightarrow> bool" where
  "not_for_us msg \<longleftrightarrow>
     \<not> mentions_bot msg \<or> author_bot msg \<or> contains (lit ''@everyone'') (message_content msg)
       \<or> contains (lit ''@here'') (message_content msg)"

definition processed_content :: "config \<Rightarrow> message \<Rightarrow> str" where
  "processed_content cfg msg =
     strip (replace (message_content msg) (self_mention cfg) (bot_title cfg))"

text \<open>The final \<open>try\<close> of \<open>on_message\<close>: save the user's turn, ask the backend, send the
  answer; an exception sends the apology instead.\<close>

definition respond :: "config \<Rightarrow> env \<Rightarrow> world \<Rightarrow> message \<Rightarrow> str \<Rightarrow> world" where
  "respond cfg e w msg c =
     (case save_message cfg w (channel_id msg) (message_line msg c) User of
        Inl x \<Rightarrow>
          deliver e w (lit ''I am sorry, I encountered an error while trying to respond.'')
      | Inr w1 \<Rightarrow>
          (case chat cfg e w1 (channel_id msg) of (response, w2) \<Rightarrow> deliver e w2 response))"

text \<open>
  \<open>on_message\<close>. \<open>random_above\<close> is the outcome of \<open>(random.random() * 1000) > 0.1\<close>. An
  exception that leaves the handler is the result \<open>Inl\<close>.
\<close>

definition on_message :: "config \<Rightarrow> env \<Rightarrow> bool \<Rightarrow> world \<Rightarrow> message \<Rightarrow> exn + world" where
  "on_message cfg e random_above w msg =
     (if \<not> ready w then Inr w
      else if chat_channel_id cfg \<noteq> [] \<and> channel_id msg \<noteq> chat_channel_id cfg then Inr w
      else if from_self msg then Inr w
      else if is_dm msg then
        (if mentions_bot msg
         then Inr (deliver e w (lit ''I am sorry, I am unable to respond in private messages.''))
         else Inr w)
      else
        let not_for_us = (\<not> mentions_bot msg \<or> author_bot msg
                            \<or> contains (lit ''@everyone'') (message_content msg)
                            \<or> contains (lit ''@here'') (message_content msg))
        in case (if not_for_us
                 then save_message cfg w (channel_id msg)
                        (message_line msg (message_content msg)) User
                 else Inr w) of
             Inl x \<Rightarrow> Inl x
           | Inr w1 \<Rightarrow>
               if not_for_us \<and> random_above then Inr w1
               else
                 let c = strip (replace (message_content msg) (self_mention cfg) (bot_title cfg))
                 in if c = [] then Inr w1
                    else if c = lit ''RESET'' \<and> author_id msg = admin_id cfg then
                      (case save_message cfg (flush_channel w1 (channel_id msg)) (channel_id msg)
                              (seed_greeting (guild_name msg)) Assistant of
                         Inl x \<Rightarrow> Inl x
                       | Inr w2 \<Rightarrow> Inr w2)
                    else
                      Inr (respond cfg e w1 msg
                             (if c = lit ''RESET'' \<and> author_id msg \<noteq> admin_id cfg
                              then denied_text msg else c)))"


section \<open>Concrete configurations and worlds\<close>

text \<open>The defaults of \<open>main\<close> (no admin, no channel filter, the bot named \<open>assistant\<close> with user
  id 1), and a world with an empty store.\<close>

definition default_config :: config where
  "default_config =
     \<lparr>admin_id = [], chat_channel_id = [], bot_title = lit ''Assistant'',
      self_mention = lit ''<@1>'', chat_max_length = 500, ctx = 2048, msg_max_chars = 1000,
      stream = False, backend = lit ''ollama''\<rparr>"

definition empty_world :: world where
  "empty_world = \<lparr>store = Map.empty, redis_log = [], outbox = [], ready = True\<rparr>"

text \<open>A backend whose streaming shape is not supported and whose calls fail, and one that
  answers \<open>ok\<close>.\<close>

definition failing_env :: env where
  "failing_env =
     \<lparr>escape_mentions = id, ollama_stream = (\<lambda>ms. ([], Some TypeError)),
      ollama_chat = (\<lambda>ms. Inl OtherError), openai_create = (\<lambda>ms. Inl OtherError)\<rparr>"

definition answering_env :: env where
  "answering_env =
     \<lparr>escape_mentions = id, ollama_stream = (\<lambda>ms. ([lit ''o'', lit ''k''], None)),
      ollama_chat = (\<lambda>ms. Inr (lit ''ok'')), openai_create = (\<lambda>ms. Inr (lit ''ok''))\<rparr>"

text \<open>A reply to a message of the bot, written by user 7 in channel 5 of guild G.\<close>

definition reset_message :: message where
  "reset_message =
     \<lparr>message_id = lit ''100'', created_at = lit ''2024-01-01 00:00:00'',
      author_name = lit ''bob'', author_id = lit ''7'', author_bot = False, from_self = False,
      reply_to = Some (lit ''99''), channel_id = lit ''5'', channel_name = Some (lit ''general''),
      is_dm = False, guild_name = lit ''G'', mentions_bot = True,
      message_content = lit ''RESET''\<rparr>"

declare chunk_loop.simps [simp del]

section \<open>Facts about the chunking loop\<close>

lemma chunk_loop_unfold:
  "chunk_loop i r m =
     (if 10 \<le> i then ([], TooManyChunks)
      else if chunk m = [] then ([], EmptyChunk)
      else if rest m = [] then ([step_of r m], NoMoreMessage)
      else if is_whole m then ([step_of r m], Done)
      else (step_of r m # fst (chunk_loop (Suc i) True (rest m)),
            snd (chunk_loop (Suc i) True (rest m))))"
  apply (subst chunk_loop.simps)
  apply (unfold Let_def)
  apply (fold cut_index_def)
  apply (fold is_whole_def)
  apply (fold chunk_def)
  apply (fold skipped_def)
  apply (fold rest_def)
  apply (fold step_of_def)
  apply (simp add: case_prod_unfold)
  done

lemma chunk_loop_induct [case_names stop step]:
  assumes stop: "\<And>i r m. 10 \<le> i \<or> chunk m = [] \<or> rest m = [] \<or> is_whole m \<Longrightarrow> P i r m"
    and step: "\<And>i r m. i < 10 \<Longrightarrow> chunk m \<noteq> [] \<Longrightarrow> rest m \<noteq> [] \<Longrightarrow> \<not> is_whole m \<Longrightarrow>
                 P (Suc i) True (rest m) \<Longrightarrow> P i r m"
  shows "P i r m"
proof -
  have "\<forall>i r m. n = 10 - i \<longrightarrow> P i r m" for n
  proof (induction n)
    case 0
    show ?case
    proof (intro allI impI)
      fix i :: nat and r m
      assume "0 = 10 - i"
      then have "10 \<le> i" by arith
      then show "P i r m" by - (rule stop, simp)
    qed
  next
    case (Suc n)
    show ?case
    proof (intro allI impI)
      fix i :: nat and r m
      assume n: "Suc n = 10 - i"
      show "P i r m"
      proof (cases "chunk m = [] \<or> rest m = [] \<or> is_whole m")
        case True
        then show ?thesis by (rule stop [OF disjI2])
      next
        case False
        have n': "n = 10 - Suc i" using n by arith
        have i: "i < 10" using n by arith
        have "P (Suc i) True (rest m)" using Suc.IH n' by simp
        then show ?thesis using False i by - (rule step, simp_all)
      qed
    qed
  qed
  then show ?thesis by blast
qed

lemma last_index_None: "last_index xs c = None \<longleftrightarrow> c \<notin> set xs"
  by (induction xs) (auto split: option.splits)

lemma last_index_Some:
  "last_index xs c = Some k \<Longrightarrow>
     k < length xs \<and> xs ! k = c \<and> (\<forall>j. k < j \<and> j < length xs \<longrightarrow> xs ! j \<noteq> c)"
proof (induction xs arbitrary: k)
  case Nil
  then show ?case by simp
next
  case (Cons x xs)
  show ?case
  proof (cases "last_index xs c")
    case None
    then have "c \<notin> set xs" by (simp add: last_index_None)
    moreover from Cons.prems None have "k = 0" "x = c" by (auto split: if_splits)
    ultimately show ?thesis by (auto simp: nth_Cons split: nat.splits)
  next
    case (Some k')
    with Cons.prems have k: "k = Suc k'" by simp
    from Cons.IH [OF Some] show ?thesis unfolding k
      by (auto simp: nth_Cons split: nat.splits)
  qed
qed

lemma rfind_Some:
  assumes "rfind m c 0 n = Some k"
  shows "k < n \<and> k < length m \<and> m ! k = c \<and> (\<forall>j. k < j \<and> j < n \<and> j < length m \<longrightarrow> m ! j \<noteq> c)"
proof -
  from assms have "last_index (take n m) c = Some k"
    by (auto simp: rfind_def split: option.splits)
  from last_index_Some [OF this] show ?thesis by auto
qed

lemma rfind_None: "rfind m c 0 n = None \<longleftrightarrow> c \<notin> set (take n m)"
proof -
  have "rfind m c 0 n = None \<longleftrightarrow> last_index (take n m) c = None"
    by (simp add: rfind_def split: option.splits)
  then show ?thesis by (simp add: last_index_None)
qed

lemma rfind_eq:
  assumes "k < n" "k < length m" "m ! k = c"
    and later: "\<forall>j. k < j \<and> j < n \<and> j < length m \<longrightarrow> m ! j \<noteq> c"
  shows "rfind m c 0 n = Some k"
proof (cases "rfind m c 0 n")
  case None
  then have "c \<notin> set (take n m)" by (simp add: rfind_None)
  moreover have "take n m ! k = c" "k < length (take n m)" using assms by simp_all
  ultimately show ?thesis by (metis nth_mem)
next
  case (Some k')
  from rfind_Some [OF Some] have k': "k' < n" "k' < length m" "m ! k' = c"
    and later': "\<forall>j. k' < j \<and> j < n \<and> j < length m \<longrightarrow> m ! j \<noteq> c" by auto
  have "\<not> k < k'" using later k' by auto
  moreover have "\<not> k' < k" using later' assms by auto
  ultimately show ?thesis using Some by simp
qed

lemma last_newline_at_rfind: "last_newline_at m k \<longleftrightarrow> rfind m NL 0 2000 = Some k"
proof
  assume "last_newline_at m k"
  then show "rfind m NL 0 2000 = Some k"
    by (intro rfind_eq) (auto simp: last_newline_at_def)
next
  assume "rfind m NL 0 2000 = Some k"
  from rfind_Some [OF this] show "last_newline_at m k"
    by (auto simp: last_newline_at_def)
qed

lemma cut_index_le: "cut_index m \<le> 2000" "cut_index m \<le> length m"
  using rfind_Some [of m NL 2000] by (auto simp: cut_index_def split: option.splits)

lemma chunk_length: "length (chunk m) \<le> 2000"
  using cut_index_le [of m] by (auto simp: chunk_def is_whole_def)


lemma cut_newline:
  assumes "NL \<in> set (take 2000 m)"
  shows "last_newline_at m (cut_index m) \<and> (chunk m = take (cut_index m) m \<or> cut_index m = 0 \<and> chunk m = m)"
proof -
  from assms obtain k where k: "rfind m NL 0 2000 = Some k"
    using rfind_None [of m NL 2000] by (cases "rfind m NL 0 2000") auto
  then have "cut_index m = k" by (simp add: cut_index_def)
  moreover have "last_newline_at m k" using k by (simp add: last_newline_at_rfind)
  moreover have "is_whole m \<Longrightarrow> k = 0"
    using rfind_Some [OF k] \<open>cut_index m = k\<close> by (auto simp: is_whole_def)
  ultimately show ?thesis by (auto simp: chunk_def)
qed

lemma chunk_loop_length: "length (fst (chunk_loop i r m)) \<le> 10 - i"
proof (induction i r m rule: chunk_loop_induct)
  case (stop i r m)
  then show ?case by (subst chunk_loop_unfold) auto
next
  case (step i r m)
  then show ?case by (subst chunk_loop_unfold) auto
qed

lemma chunk_loop_steps:
  "st \<in> set (fst (chunk_loop i r m)) \<Longrightarrow> \<exists>r' m'. st = step_of r' m'"
proof (induction i r m rule: chunk_loop_induct)
  case (stop i r m)
  then show ?case by (subst (asm) chunk_loop_unfold) (auto split: if_splits)
next
  case (step i r m)
  from step.prems have "st = step_of r m \<or> st \<in> set (fst (chunk_loop (Suc i) True (rest m)))"
    using step.hyps by (subst (asm) chunk_loop_unfold) (auto split: if_splits)
  then show ?case using step.IH by blast
qed



lemma write_trace_steps:
  assumes "st \<in> set (fst (write_trace esc s))" "2000 \<le> length (delivered esc s)"
  shows "\<exists>r m. st = step_of r m"
  using assms chunk_loop_steps [of st 0 False "delivered esc s"]
  by (simp add: write_trace_def Let_def)

lemma step_of_length: "length (chunk_to_send (step_of r m)) \<le> 2000"
  by (simp add: step_of_def chunk_length)

lemma strip_id: "s \<noteq> [] \<Longrightarrow> \<not> isspace (hd s) \<Longrightarrow> \<not> isspace (last s) \<Longrightarrow> strip s = s"
proof -
  assume s: "s \<noteq> []" and h: "\<not> isspace (hd s)" and l: "\<not> isspace (last s)"
  have "dropWhile isspace s = s" using s h by (cases s) simp_all
  moreover have "dropWhile isspace (rev s) = rev s"
    using s l by (cases "rev s") (simp_all add: last_rev [symmetric] hd_rev)
  ultimately show ?thesis by (simp add: strip_def)
qed

lemma replace_from_id: "hd old \<notin> set s \<Longrightarrow> old \<noteq> [] \<Longrightarrow> replace_from old new 0 s = s"
proof (induction s)
  case Nil
  then show ?case by simp
next
  case (Cons c cs)
  then have "\<not> prefix old (c # cs)" by (cases old) auto
  then show ?case using Cons by simp
qed

lemma sanitize_id:
  assumes "s \<noteq> []" "\<not> isspace (hd s)" "\<not> isspace (last s)" "64 \<notin> set s"
  shows "sanitize id s = s"
  using assms by (simp add: sanitize_def strip_id replace_def replace_from_id lit_def)


text \<open>
  Claim C2. For every input text the chunker sends at most 10 messages, none longer than 2000
  characters, and in every loop iteration whose 2000-character window holds a newline the
  split index is the offset of the last newline of the window: the chunk sent is the text
  before it (when that text is empty, which needs the newline to be the first character,
  the whole remaining text of at most 2000 characters is sent instead).
\<close>

theorem chunker_bounds_and_newline_cut:
  "length (write_response esc s) \<le> 10 \<and>
   (\<forall>x \<in> set (write_response esc s). length (body x) \<le> 2000) \<and>
   (2000 \<le> length (delivered esc s) \<longrightarrow>
      (\<forall>st \<in> set (fst (write_trace esc s)).
         NL \<in> set (take 2000 (remaining st)) \<longrightarrow>
           last_newline_at (remaining st) (split_index st) \<and>
           (chunk_to_send st = take (split_index st) (remaining st) \<or>
            split_index st = 0 \<and> chunk_to_send st = remaining st)))"
proof (intro conjI impI ballI)
  show "length (write_response esc s) \<le> 10"
    using chunk_loop_length [of 0 False "delivered esc s"]
    by (simp add: write_response_def write_trace_def Let_def)
next
  fix x assume "x \<in> set (write_response esc s)"
  then obtain st where st: "st \<in> set (fst (write_trace esc s))" and x: "x = send_of st"
    by (auto simp: write_response_def)
  show "length (body x) \<le> 2000"
  proof (cases "2000 \<le> length (delivered esc s)")
    case True
    from write_trace_steps [OF st True] show ?thesis
      using step_of_length by (auto simp: x send_of_def)
  next
    case False
    then show ?thesis using st by (simp add: x send_of_def write_trace_def Let_def)
  qed
next
  fix st
  assume long: "2000 \<le> length (delivered esc s)"
    and st: "st \<in> set (fst (write_trace esc s))"
    and nl: "NL \<in> set (take 2000 (remaining st))"
  from write_trace_steps [OF st long] obtain r m where "st = step_of r m" by blast
  then have f: "remaining st = m" "split_index st = cut_index m" "chunk_to_send st = chunk m"
    by (simp_all add: step_of_def)
  from cut_newline [of m] nl
  show "last_newline_at (remaining st) (split_index st)"
    and "chunk_to_send st = take (split_index st) (remaining st) \<or>
         split_index st = 0 \<and> chunk_to_send st = remaining st"
    unfolding f by simp_all
qed


text \<open>Two concrete texts and their runs.\<close>

lemma example_two_chunks_delivered:
  "delivered id (replicate 1500 97 @ 10 # replicate 1000 98)
     = replicate 1500 97 @ 10 # replicate 1000 98"
  by (simp add: delivered_def sanitize_id isspace_def Let_def)

lemma example_two_chunks_run:
  "chunk_loop 0 False (replicate 1500 97 @ 10 # replicate 1000 98) =
     ([\<lparr>remaining = replicate 1500 97 @ 10 # replicate 1000 98, split_index = 1500,
        chunk_to_send = replicate 1500 97, with_reference = True, whole = False,
        newline_skipped = True\<rparr>,
       \<lparr>remaining = replicate 1000 98, split_index = 1000,
        chunk_to_send = replicate 1000 98, with_reference = False, whole = False,
        newline_skipped = False\<rparr>], NoMoreMessage)"
proof -
  let ?m = "replicate 1500 97 @ 10 # replicate 1000 (98::nat)"
  let ?m2 = "replicate 1000 (98::nat)"
  have "rfind ?m NL 0 2000 = Some 1500"
    by (rule rfind_eq) (auto simp: NL_def nth_append nth_Cons')
  then have cut1: "cut_index ?m = 1500" by (simp add: cut_index_def)
  have w1: "\<not> is_whole ?m" by (simp add: is_whole_def cut1)
  have c1: "chunk ?m = replicate 1500 97" by (simp add: chunk_def w1 cut1)
  have s1: "skipped ?m" by (simp add: skipped_def cut1 nth_append NL_def)
  have r1: "rest ?m = ?m2" by (simp add: rest_def s1 cut1)
  have "rfind ?m2 NL 0 2000 = None" by (simp add: rfind_None NL_def)
  then have cut2: "cut_index ?m2 = 1000" by (simp add: cut_index_def)
  have w2: "\<not> is_whole ?m2" by (simp add: is_whole_def cut2)
  have c2: "chunk ?m2 = ?m2" by (simp add: chunk_def w2 cut2)
  have s2: "\<not> skipped ?m2" by (simp add: skipped_def cut2)
  have r2: "rest ?m2 = []" by (simp add: rest_def s2 cut2)
  have "chunk_loop (Suc 0) True ?m2 = ([step_of True ?m2], NoMoreMessage)"
    by (subst chunk_loop_unfold) (simp add: c2 r2)
  then show ?thesis
    by (subst chunk_loop_unfold)
       (simp add: c1 r1 w1 step_of_def cut1 cut2 c2 w2 s1 s2)
qed


lemma example_two_chunks_trace:
  "write_trace id (replicate 1500 97 @ 10 # replicate 1000 98) =
     ([\<lparr>remaining = replicate 1500 97 @ 10 # replicate 1000 98, split_index = 1500,
        chunk_to_send = replicate 1500 97, with_reference = True, whole = False,
        newline_skipped = True\<rparr>,
       \<lparr>remaining = replicate 1000 98, split_index = 1000,
        chunk_to_send = replicate 1000 98, with_reference = False, whole = False,
        newline_skipped = False\<rparr>], NoMoreMessage)"
  unfolding write_trace_def example_two_chunks_delivered Let_def
  by (simp add: example_two_chunks_run)





text \<open>The same text is cut at its newline, offset 1500.\<close>

theorem chunker_bounds_and_newline_cut_witness:
  "length (write_response id (replicate 1500 97 @ 10 # replicate 1000 98)) \<le> 10 \<and>
   map body (write_response id (replicate 1500 97 @ 10 # replicate 1000 98))
     = [replicate 1500 97, replicate 1000 98] \<and>
   2000 \<le> length (delivered id (replicate 1500 97 @ 10 # replicate 1000 98)) \<and>
   (\<exists>st \<in> set (fst (write_trace id (replicate 1500 97 @ 10 # replicate 1000 98))).
      NL \<in> set (take 2000 (remaining st)) \<and> last_newline_at (remaining st) 1500 \<and>
      split_index st = 1500 \<and> chunk_to_send st = take 1500 (remaining st))"
proof -
  let ?y = "replicate 1500 97 @ 10 # replicate 1000 (98::nat)"
  let ?st = "\<lparr>remaining = ?y, split_index = 1500, chunk_to_send = replicate 1500 97,
              with_reference = True, whole = False, newline_skipped = True\<rparr>"
  note main = chunker_bounds_and_newline_cut [of id ?y]
  have long: "2000 \<le> length (delivered id ?y)" by (simp add: example_two_chunks_delivered)
  have st: "?st \<in> set (fst (write_trace id ?y))" by (simp add: example_two_chunks_trace)
  have nl: "NL \<in> set (take 2000 (remaining ?st))" by (simp add: NL_def)
  from main long st nl have "last_newline_at (remaining ?st) (split_index ?st)" by blast
  then have "NL \<in> set (take 2000 (remaining ?st)) \<and> last_newline_at (remaining ?st) 1500 \<and>
      split_index ?st = 1500 \<and> chunk_to_send ?st = take 1500 (remaining ?st)"
    using nl by simp
  with st have "\<exists>st \<in> set (fst (write_trace id ?y)).
      NL \<in> set (take 2000 (remaining st)) \<and> last_newline_at (remaining st) 1500 \<and>
      split_index st = 1500 \<and> chunk_to_send st = take 1500 (remaining st)" by blast
  moreover have "map body (write_response id ?y) = [replicate 1500 97, replicate 1000 98]"
    by (simp add: write_response_def example_two_chunks_trace send_of_def)
  ultimately show ?thesis using main long by blast
qed

section \<open>Facts about the session store\<close>

lemma strip_nonblank: "s \<noteq> [] \<Longrightarrow> \<not> isspace (hd s) \<Longrightarrow> strip s \<noteq> []"
proof -
  assume s: "s \<noteq> []" and h: "\<not> isspace (hd s)"
  then have "dropWhile isspace s = s" by (cases s) simp_all
  moreover have "dropWhile isspace (rev s) \<noteq> []"
    using s h by (auto simp: dropWhile_eq_Nil_conv intro: bexI [of _ "hd s"])
  ultimately show ?thesis by (simp add: strip_def)
qed

lemma seed_greeting_nonblank: "strip (seed_greeting g) \<noteq> []"
  by (rule strip_nonblank) (simp_all add: seed_greeting_def lit_def isspace_def)

lemma lit_nonblank: "\<not> isspace (of_char c) \<Longrightarrow> strip (lit (c # s)) \<noteq> []"
  by (rule strip_nonblank) (simp_all add: lit_def)


lemma evict_keeps:
  "1 \<le> mx \<Longrightarrow> evict mx ms = Inr (drop (length ms - nat (mx - 1)) ms)"
proof (induction ms)
  case Nil
  then show ?case by simp
next
  case (Cons m ms)
  show ?case
  proof (cases "int (length (m # ms)) \<ge> mx")
    case True
    then have "Suc (length ms) - nat (mx - 1) = Suc (length ms - nat (mx - 1))"
      using Cons.prems by (simp add: Suc_diff_le nat_le_iff)
    then show ?thesis using True Cons by simp
  next
    case False
    then have "length (m # ms) - nat (mx - 1) = 0" by simp
    then show ?thesis using False by (simp del: length_Cons)
  qed
qed

lemma evict_raises: "mx \<le> 0 \<Longrightarrow> evict mx ms = Inl IndexError"
  by (induction ms) simp_all

lemma evict_no_TypeError: "evict mx ms \<noteq> Inl TypeError"
  by (induction ms) simp_all

lemma save_message_no_TypeError: "save_message cfg w c message r \<noteq> Inl TypeError"
  using evict_no_TypeError [of "chat_max_length cfg" "load_channel w c"]
  by (auto simp: save_message_def Let_def split: sum.splits)

lemma save_message_blank: "strip message = [] \<Longrightarrow> save_message cfg w c message r = Inr w"
  by (simp add: save_message_def)

lemma save_message_raises:
  "strip message \<noteq> [] \<Longrightarrow> chat_max_length cfg \<le> 0 \<Longrightarrow>
     save_message cfg w c message r = Inl IndexError"
  by (simp add: save_message_def Let_def evict_raises)

lemma save_message_appends:
  assumes "strip message \<noteq> []" "1 \<le> chat_max_length cfg"
  shows "save_message cfg w c message r =
           Inr (w\<lparr>store := (store w)(c \<mapsto> kept_turns cfg (load_channel w c) @ [stored_turn cfg (message, r)]),
                  redis_log := redis_log w @
                    [SET c (kept_turns cfg (load_channel w c) @ [stored_turn cfg (message, r)]) 604800]\<rparr>)"
  using assms
  by (simp add: save_message_def Let_def evict_keeps kept_turns_def last_n_def stored_turn_def truncated_def)


lemma load_channel_store [simp]:
  "load_channel (w\<lparr>store := (store w)(c \<mapsto> ms), redis_log := l\<rparr>) c = ms"
  by (simp add: load_channel_def)

lemma load_channel_flush [simp]: "load_channel (flush_channel w c) c = []"
  by (simp add: load_channel_def flush_channel_def)

lemma kept_turns_snoc:
  "1 \<le> chat_max_length cfg \<Longrightarrow>
     kept_turns cfg ms @ [t] = last_n (nat (chat_max_length cfg)) (ms @ [t])"
proof -
  assume mx: "1 \<le> chat_max_length cfg"
  have "Suc (length ms) - nat (chat_max_length cfg) = length ms - nat (chat_max_length cfg - 1)"
    using mx by (simp add: nat_diff_distrib)
  then show ?thesis by (simp add: kept_turns_def last_n_def)
qed

lemma last_n_absorb: "last_n n (last_n n ys @ zs) = last_n n (ys @ zs)"
  by (cases "length ys \<le> n") (simp_all add: last_n_def add.commute)

lemma last_n_long: "n \<le> length zs \<Longrightarrow> last_n n (ys @ zs) = last_n n zs"
  by (simp add: last_n_def)

lemma save_message_load:
  assumes "strip message \<noteq> []" "1 \<le> chat_max_length cfg"
  shows "\<exists>w'. save_message cfg w c message r = Inr w' \<and>
           load_channel w' c =
             last_n (nat (chat_max_length cfg)) (load_channel w c @ [stored_turn cfg (message, r)])"
  using assms by (simp add: save_message_appends kept_turns_snoc)

lemma appends_load:
  assumes "1 \<le> chat_max_length cfg" "\<forall>x \<in> set (x # xs). strip (fst x) \<noteq> []"
  shows "load_channel (appends cfg w c (x # xs)) c =
           last_n (nat (chat_max_length cfg)) (load_channel w c @ map (stored_turn cfg) (x # xs))"
  using assms(2)
proof (induction xs arbitrary: w x)
  case Nil
  obtain message r where x: "x = (message, r)" by (cases x)
  from Nil x have nb: "strip message \<noteq> []" by simp
  from save_message_load [OF nb assms(1), of w c r] show ?case
    by (auto simp: x)
next
  case (Cons y ys)
  obtain message r where x: "x = (message, r)" by (cases x)
  from Cons.prems x have nb: "strip message \<noteq> []" by simp
  from save_message_load [OF nb assms(1), of w c r] obtain w' where
    w': "save_message cfg w c message r = Inr w'"
    "load_channel w' c = last_n (nat (chat_max_length cfg))
        (load_channel w c @ [stored_turn cfg (message, r)])" by blast
  have "load_channel (appends cfg w c (x # y # ys)) c = load_channel (appends cfg w' c (y # ys)) c"
    by (simp add: x w'(1))
  also have "\<dots> = last_n (nat (chat_max_length cfg))
      (load_channel w' c @ map (stored_turn cfg) (y # ys))"
    using Cons by simp
  also have "\<dots> = last_n (nat (chat_max_length cfg))
      (load_channel w c @ map (stored_turn cfg) (x # y # ys))"
    unfolding w'(2) by (simp add: last_n_absorb x)
  finally show ?case .
qed

lemma last_n_map: "last_n n (map f xs) = map f (last_n n xs)"
  by (simp add: last_n_def drop_map)

lemma length_last_n: "n \<le> length xs \<Longrightarrow> length (last_n n xs) = n"
  by (simp add: last_n_def)

lemma truncated_suffix:
  assumes "0 < msg_max_chars cfg" "int (length message) > msg_max_chars cfg"
  shows "truncated cfg message = last_n (nat (msg_max_chars cfg)) message"
    and "int (length (truncated cfg message)) = msg_max_chars cfg"
    and "suffix (truncated cfg message) message"
proof -
  have "nat (int (length message) - msg_max_chars cfg) = length message - nat (msg_max_chars cfg)"
    using assms by (simp add: nat_diff_distrib)
  then show eq: "truncated cfg message = last_n (nat (msg_max_chars cfg)) message"
    using assms by (simp add: truncated_def slice_from_def last_n_def)
  show "int (length (truncated cfg message)) = msg_max_chars cfg"
    unfolding eq using assms by (simp add: length_last_n)
  show "suffix (truncated cfg message) message"
    unfolding eq last_n_def by (rule suffix_drop)
qed

lemma truncated_short: "int (length message) \<le> msg_max_chars cfg \<Longrightarrow> truncated cfg message = message"
  by (simp add: truncated_def)


lemma truncated_cut:
  "0 < msg_max_chars cfg \<Longrightarrow> truncated cfg message = cut_to_cap (msg_max_chars cfg) message"
proof (cases "int (length message) > msg_max_chars cfg")
  case True
  assume "0 < msg_max_chars cfg"
  from truncated_suffix(1) [OF this True] True show ?thesis by (simp add: cut_to_cap_def)
next
  case False
  then show ?thesis by (simp add: truncated_def cut_to_cap_def)
qed

text \<open>
  Claim C3, amended. With a maximum turn count of at least 1 and a per-turn cap of at least
  1, after more appends of non-blank contents to one channel than the maximum, whatever the
  channel held before, the stored sequence has exactly the maximum length and consists of
  the most recent appends, as many as the maximum, in the order they were made, each with
  its role and with its content cut to the per-turn cap (its last \<open>cap\<close> characters when it is
  longer than the cap).
\<close>

theorem appends_keep_most_recent:
  assumes "1 \<le> chat_max_length cfg"
    and "1 \<le> msg_max_chars cfg"
    and "\<forall>x \<in> set xs. strip (fst x) \<noteq> []"
    and "int (length xs) > chat_max_length cfg"
  shows "load_channel (appends cfg w c xs) c
           = map (\<lambda>x. \<lparr>role = snd x, content = cut_to_cap (msg_max_chars cfg) (fst x)\<rparr>)
               (last_n (nat (chat_max_length cfg)) xs) \<and>
         int (length (load_channel (appends cfg w c xs) c)) = chat_max_length cfg"
proof -
  from assms(1,4) obtain y ys where xs: "xs = y # ys" by (cases xs) auto
  have n: "nat (chat_max_length cfg) \<le> length (map (stored_turn cfg) xs)"
    using assms(4) by simp
  have st: "stored_turn cfg = (\<lambda>x. \<lparr>role = snd x, content = cut_to_cap (msg_max_chars cfg) (fst x)\<rparr>)"
    using assms(2) by (auto simp: stored_turn_def truncated_cut)
  have "load_channel (appends cfg w c xs) c =
          last_n (nat (chat_max_length cfg)) (load_channel w c @ map (stored_turn cfg) xs)"
    using appends_load [OF assms(1), of y ys w c] assms(3) unfolding xs by simp
  also have "\<dots> = last_n (nat (chat_max_length cfg)) (map (stored_turn cfg) xs)"
    using n by (rule last_n_long)
  finally have eq: "load_channel (appends cfg w c xs) c =
      map (stored_turn cfg) (last_n (nat (chat_max_length cfg)) xs)"
    by (simp add: last_n_map)
  moreover have "int (length (last_n (nat (chat_max_length cfg)) xs)) = chat_max_length cfg"
    using assms(1,4) by (simp add: length_last_n)
  ultimately show ?thesis unfolding st by simp
qed

section \<open>The trimmer\<close>

lemma trim_loop_suffix: "suffix (trim_loop b ms) ms"
  by (induction ms) (auto simp: suffix_Cons)

lemma trim_loop_fits:
  "trim_loop b ms \<noteq> [] \<Longrightarrow> int (length (json_dumps (trim_loop b ms))) \<le> b"
  by (induction ms) (auto split: if_splits)

lemma trim_loop_dropped:
  "suffix s ms \<Longrightarrow> length (trim_loop b ms) < length s \<Longrightarrow> b < int (length (json_dumps s))"
proof (induction ms)
  case Nil
  then show ?case by simp
next
  case (Cons m ms)
  show ?case
  proof (cases "int (length (json_dumps (m # ms))) - b > 0")
    case True
    from Cons.prems(1) have "s = m # ms \<or> suffix s ms" by (auto simp: suffix_Cons)
    then show ?thesis using True Cons by auto
  next
    case False
    then have "trim_loop b (m # ms) = m # ms" by simp
    moreover have "length s \<le> length (m # ms)" using Cons.prems(1) by (rule suffix_length_le)
    ultimately show ?thesis using Cons.prems(2) by simp
  qed
qed

text \<open>
  Claim C5. For every turn sequence and context length, the trimmed sequence is a suffix of
  the input (whole turns are dropped from the front, nothing is reordered or cut), and its
  JSON text has at most \<open>ctx * 4\<close> characters, or it is empty and no suffix of the input
  fits. No turn is dropped without need: every suffix of the input longer than the trimmed
  sequence is over the budget, so the result is empty only when no non-empty suffix fits.
\<close>

theorem trim_keeps_fitting_suffix:
  "suffix (trim c ms) ms \<and>
   (int (length (json_dumps (trim c ms))) \<le> c * 4 \<or>
    (trim c ms = [] \<and> (\<forall>s. suffix s ms \<longrightarrow> int (length (json_dumps s)) > c * 4))) \<and>
   (\<forall>s. suffix s ms \<and> length (trim c ms) < length s \<longrightarrow> int (length (json_dumps s)) > c * 4) \<and>
   (trim c ms = [] \<longrightarrow> (\<forall>s. suffix s ms \<and> s \<noteq> [] \<longrightarrow> int (length (json_dumps s)) > c * 4))"
proof -
  have longer: "int (length (json_dumps s)) > c * 4"
    if "suffix s ms" "length (trim c ms) < length s" for s
  proof (cases "int (length (json_dumps ms)) > c * 4")
    case True
    then have "trim c ms = trim_loop (c * 4) ms" by (simp add: trim_def)
    then show ?thesis using trim_loop_dropped [OF that(1), of "c * 4"] that(2) by simp
  next
    case False
    then have "trim c ms = ms" by (simp add: trim_def)
    then show ?thesis using suffix_length_le [OF that(1)] that(2) by simp
  qed
  have fits: "suffix (trim c ms) ms \<and>
   (int (length (json_dumps (trim c ms))) \<le> c * 4 \<or>
    (trim c ms = [] \<and> (\<forall>s. suffix s ms \<longrightarrow> int (length (json_dumps s)) > c * 4)))"
  proof (cases "int (length (json_dumps ms)) > c * 4")
    case False
    then show ?thesis by (simp add: trim_def)
  next
    case True
    then have t: "trim c ms = trim_loop (c * 4) ms" by (simp add: trim_def)
    show ?thesis
    proof (cases "int (length (json_dumps (trim c ms))) \<le> c * 4")
      case True
      then show ?thesis by (simp add: t trim_loop_suffix)
    next
      case over: False
      then have e: "trim_loop (c * 4) ms = []" using trim_loop_fits [of "c * 4" ms] t by auto
      have "int (length (json_dumps s)) > c * 4" if "suffix s ms" for s
      proof (cases "s = []")
        case True
        then show ?thesis using over t e by simp
      next
        case False
        then show ?thesis using trim_loop_dropped [OF that, of "c * 4"] e by simp
      qed
      then show ?thesis by (simp add: t e)
    qed
  qed
  have "int (length (json_dumps s)) > c * 4" if "trim c ms = []" "suffix s ms" "s \<noteq> []" for s
    using longer [OF that(2)] that(1,3) by simp
  then show ?thesis using fits longer by blast
qed

text \<open>
  Two turns of 78 characters of JSON and a budget of 60: the first turn is dropped, the
  second, of 40 characters, is kept, and the two together are over the budget.
\<close>

theorem trim_keeps_fitting_suffix_witness:
  "trim 15 [\<lparr>role = User, content = lit ''hello''\<rparr>, \<lparr>role = Assistant, content = lit ''hi''\<rparr>]
     = [\<lparr>role = Assistant, content = lit ''hi''\<rparr>] \<and>
   suffix (trim 15 [\<lparr>role = User, content = lit ''hello''\<rparr>, \<lparr>role = Assistant, content = lit ''hi''\<rparr>])
     [\<lparr>role = User, content = lit ''hello''\<rparr>, \<lparr>role = Assistant, content = lit ''hi''\<rparr>] \<and>
   int (length (json_dumps
     (trim 15 [\<lparr>role = User, content = lit ''hello''\<rparr>, \<lparr>role = Assistant, content = lit ''hi''\<rparr>])))
     \<le> 15 * 4 \<and>
   length (trim 15 [\<lparr>role = User, content = lit ''hello''\<rparr>, \<lparr>role = Assistant, content = lit ''hi''\<rparr>])
     < length [\<lparr>role = User, content = lit ''hello''\<rparr>, \<lparr>role = Assistant, content = lit ''hi''\<rparr>] \<and>
   int (length (json_dumps
     [\<lparr>role = User, content = lit ''hello''\<rparr>, \<lparr>role = Assistant, content = lit ''hi''\<rparr>]))
     > 15 * 4"
proof -
  let ?ms = "[\<lparr>role = User, content = lit ''hello''\<rparr>, \<lparr>role = Assistant, content = lit ''hi''\<rparr>]"
  have t: "trim 15 ?ms = [\<lparr>role = Assistant, content = lit ''hi''\<rparr>]"
    by code_simp
  have s: "suffix ?ms ?ms \<and> length (trim 15 ?ms) < length ?ms" by (simp add: t)
  from trim_keeps_fitting_suffix [of 15 ?ms] s
  have "int (length (json_dumps ?ms)) > 15 * 4" by blast
  then show ?thesis
    using trim_keeps_fitting_suffix [of 15 ?ms] t by auto
qed


section \<open>Appends, concretely\<close>

text \<open>
  Three appends with a maximum of 2 and a cap of 3 leave the last two, the long one cut to
  its last three characters.
\<close>

theorem appends_keep_most_recent_witness:
  "1 \<le> chat_max_length (default_config\<lparr>chat_max_length := 2, msg_max_chars := 3\<rparr>) \<and>
   1 \<le> msg_max_chars (default_config\<lparr>chat_max_length := 2, msg_max_chars := 3\<rparr>) \<and>
   int (length [(lit ''a'', User), (lit ''b'', Assistant), (lit ''hello'', User)])
     > chat_max_length (default_config\<lparr>chat_max_length := 2, msg_max_chars := 3\<rparr>) \<and>
   load_channel
       (appends (default_config\<lparr>chat_max_length := 2, msg_max_chars := 3\<rparr>) empty_world (lit ''7'')
          [(lit ''a'', User), (lit ''b'', Assistant), (lit ''hello'', User)]) (lit ''7'')
     = [\<lparr>role = Assistant, content = lit ''b''\<rparr>, \<lparr>role = User, content = lit ''llo''\<rparr>]"
proof -
  have "\<forall>x \<in> set [(lit ''a'', User), (lit ''b'', Assistant), (lit ''hello'', User)].
          strip (fst x) \<noteq> []"
    by (simp add: lit_nonblank isspace_def)
  then show ?thesis
    using appends_keep_most_recent
        [of "default_config\<lparr>chat_max_length := 2, msg_max_chars := 3\<rparr>"
          "[(lit ''a'', User), (lit ''b'', Assistant), (lit ''hello'', User)]" empty_world "lit ''7''"]
    by (simp add: default_config_def last_n_def cut_to_cap_def lit_def)
qed

text \<open>
  Claim C3 as stated fails for contents that are not empty but blank: with a maximum of 1,
  two appends of a single space are two appends of non-empty contents, more than the
  maximum, and nothing is stored, since \<open>save_message\<close> returns at once when the content
  stripped of whitespace is empty.
\<close>

theorem appends_blank_counterexample:
  "lit '' '' \<noteq> [] \<and>
   int (length [(lit '' '', User), (lit '' '', Assistant)])
     > chat_max_length (default_config\<lparr>chat_max_length := 1\<rparr>) \<and>
   load_channel (appends (default_config\<lparr>chat_max_length := 1\<rparr>) empty_world (lit ''7'')
       [(lit '' '', User), (lit '' '', Assistant)]) (lit ''7'') = [] \<and>
   int (length (load_channel (appends (default_config\<lparr>chat_max_length := 1\<rparr>) empty_world (lit ''7'')
       [(lit '' '', User), (lit '' '', Assistant)]) (lit ''7'')))
     \<noteq> chat_max_length (default_config\<lparr>chat_max_length := 1\<rparr>)"
proof -
  have "strip (lit '' '') = []" by (simp add: strip_def lit_def isspace_def)
  then show ?thesis
    by (simp add: save_message_blank default_config_def load_channel_def empty_world_def)
       (simp add: lit_def)
qed

lemma save_message_keeps_suffix:
  assumes "strip message \<noteq> []" "1 \<le> chat_max_length cfg"
    and "0 < msg_max_chars cfg" "int (length message) > msg_max_chars cfg"
  shows "\<exists>w'. save_message cfg w c message r = Inr w' \<and>
           last (load_channel w' c)
             = \<lparr>role = r, content = last_n (nat (msg_max_chars cfg)) message\<rparr>"
  using assms
  by (simp add: save_message_appends stored_turn_def truncated_suffix(1))

text \<open>
  Claim C4 at a per-turn cap of 0: the content \<open>abc\<close> is longer than the cap and is stored
  whole, since \<open>content_str[-0:]\<close> is the whole text; the suffix of length 0 is empty.
\<close>

theorem save_message_cap_zero:
  "map_sum id (\<lambda>w. load_channel w (lit ''7''))
     (save_message (default_config\<lparr>msg_max_chars := 0\<rparr>) empty_world (lit ''7'') (lit ''abc'') User)
     = Inr [\<lparr>role = User, content = lit ''abc''\<rparr>]"
proof -
  have "strip (lit ''abc'') \<noteq> []" by (simp add: lit_nonblank isspace_def)
  then show ?thesis
    by (simp add: save_message_appends default_config_def kept_turns_def last_n_def
          stored_turn_def truncated_def slice_from_def lit_def load_channel_def empty_world_def)
qed

section \<open>The reset command\<close>

text \<open>
  Claim C6. When an admin id is configured and the requester's id differs from it, the reset
  command answers that the requester is not authorized and leaves the world as it was: no
  store entry of any channel changes and no command is sent to the store.
\<close>

theorem reset_refused:
  assumes "admin_id cfg \<noteq> []" "user_id ia \<noteq> admin_id cfg"
  shows "reset_command cfg w ia = (lit ''You are not authorized to reset the chat.'', w)"
  using assms by (simp add: reset_command_def)

text \<open>
  Admin 42, requester 7: the stored session stays.
\<close>

theorem reset_refused_witness:
  "admin_id (default_config\<lparr>admin_id := lit ''42''\<rparr>) \<noteq> [] \<and>
   user_id \<lparr>user_id = lit ''7'', interaction_channel_id = Some (lit ''1''),
            interaction_guild_name = Some (lit ''G'')\<rparr>
     \<noteq> admin_id (default_config\<lparr>admin_id := lit ''42''\<rparr>) \<and>
   reset_command (default_config\<lparr>admin_id := lit ''42''\<rparr>)
       (empty_world\<lparr>store := [lit ''1'' \<mapsto> [\<lparr>role = User, content = lit ''hi''\<rparr>]]\<rparr>)
       \<lparr>user_id = lit ''7'', interaction_channel_id = Some (lit ''1''),
        interaction_guild_name = Some (lit ''G'')\<rparr>
     = (lit ''You are not authorized to reset the chat.'',
        empty_world\<lparr>store := [lit ''1'' \<mapsto> [\<lparr>role = User, content = lit ''hi''\<rparr>]]\<rparr>)"
proof -
  have a: "admin_id (default_config\<lparr>admin_id := lit ''42''\<rparr>) \<noteq> []"
    by (simp add: lit_def)
  have b: "user_id \<lparr>user_id = lit ''7'', interaction_channel_id = Some (lit ''1''),
            interaction_guild_name = Some (lit ''G'')\<rparr>
     \<noteq> admin_id (default_config\<lparr>admin_id := lit ''42''\<rparr>)"
    by (simp add: lit_def)
  show ?thesis using a b reset_refused [OF a b] by blast
qed

lemma reset_command_allowed:
  assumes "admin_id cfg = [] \<or> user_id ia = admin_id cfg"
    and "interaction_channel_id ia = Some c"
    and "1 \<le> chat_max_length cfg"
  shows "fst (reset_command cfg w ia) = lit ''Chat reset.''"
    and "load_channel (snd (reset_command cfg w ia)) c
           = [\<lparr>role = Assistant, content = truncated cfg (seed_greeting (reset_guild_name ia))\<rparr>]"
proof -
  let ?g = "seed_greeting (reset_guild_name ia)"
  have "reset_command cfg w ia =
    (case save_message cfg (flush_channel w c) c ?g Assistant of
       Inl x \<Rightarrow> (lit ''An error occurred while resetting the chat.'', flush_channel w c)
     | Inr w2 \<Rightarrow> (lit ''Chat reset.'', w2))"
    using assms(1,2) by (auto simp: reset_command_def Let_def reset_guild_name_def)
  then show "fst (reset_command cfg w ia) = lit ''Chat reset.''"
    and "load_channel (snd (reset_command cfg w ia)) c
           = [\<lparr>role = Assistant, content = truncated cfg (seed_greeting (reset_guild_name ia))\<rparr>]"
    by (simp_all add: save_message_appends [OF seed_greeting_nonblank assms(3)] kept_turns_def
          last_n_def stored_turn_def)
qed

text \<open>
  Claim C7, amended. For a reset by the configured admin, or by anyone when no admin id is
  configured, with the channel id known, a maximum turn count of at least 1 and a per-turn
  cap of at least 1, and the store working: the answer is \<open>Chat reset.\<close> and the stored
  session of the channel is exactly one assistant turn, whose content is the seed greeting
  cut to the per-turn cap (its last \<open>cap\<close> characters when it is longer than the cap), so
  the seed greeting itself when it is no longer than the cap.
\<close>

theorem reset_reseeds:
  assumes "admin_id cfg = [] \<or> user_id ia = admin_id cfg"
    and "interaction_channel_id ia = Some c"
    and "1 \<le> chat_max_length cfg"
    and "1 \<le> msg_max_chars cfg"
  shows "fst (reset_command cfg w ia) = lit ''Chat reset.'' \<and>
         load_channel (snd (reset_command cfg w ia)) c
           = [\<lparr>role = Assistant,
               content = cut_to_cap (msg_max_chars cfg) (seed_greeting (reset_guild_name ia))\<rparr>] \<and>
         (int (length (seed_greeting (reset_guild_name ia))) \<le> msg_max_chars cfg \<longrightarrow>
            load_channel (snd (reset_command cfg w ia)) c
              = [\<lparr>role = Assistant, content = seed_greeting (reset_guild_name ia)\<rparr>])"
proof -
  have "truncated cfg (seed_greeting (reset_guild_name ia))
          = cut_to_cap (msg_max_chars cfg) (seed_greeting (reset_guild_name ia))"
    using assms(4) by (simp add: truncated_cut)
  then show ?thesis
    using reset_command_allowed [OF assms(1-3), of w] by (simp add: cut_to_cap_def)
qed

text \<open>
  The admin resets channel 7 of guild G with the default cap of 1000.
\<close>

theorem reset_reseeds_witness:
  "user_id \<lparr>user_id = lit ''42'', interaction_channel_id = Some (lit ''7''),
            interaction_guild_name = Some (lit ''G'')\<rparr>
     = admin_id (default_config\<lparr>admin_id := lit ''42''\<rparr>) \<and>
   1 \<le> chat_max_length (default_config\<lparr>admin_id := lit ''42''\<rparr>) \<and>
   1 \<le> msg_max_chars (default_config\<lparr>admin_id := lit ''42''\<rparr>) \<and>
   int (length (seed_greeting (lit ''G''))) \<le> msg_max_chars (default_config\<lparr>admin_id := lit ''42''\<rparr>) \<and>
   fst (reset_command (default_config\<lparr>admin_id := lit ''42''\<rparr>)
          (empty_world\<lparr>store := [lit ''7'' \<mapsto> [\<lparr>role = User, content = lit ''hi''\<rparr>]]\<rparr>)
          \<lparr>user_id = lit ''42'', interaction_channel_id = Some (lit ''7''),
           interaction_guild_name = Some (lit ''G'')\<rparr>) = lit ''Chat reset.'' \<and>
   load_channel (snd (reset_command (default_config\<lparr>admin_id := lit ''42''\<rparr>)
          (empty_world\<lparr>store := [lit ''7'' \<mapsto> [\<lparr>role = User, content = lit ''hi''\<rparr>]]\<rparr>)
          \<lparr>user_id = lit ''42'', interaction_channel_id = Some (lit ''7''),
           interaction_guild_name = Some (lit ''G'')\<rparr>)) (lit ''7'')
     = [\<lparr>role = Assistant, content = lit ''*You joined the chat! - You joined G.*''\<rparr>]"
proof -
  let ?cfg = "default_config\<lparr>admin_id := lit ''42''\<rparr>"
  let ?ia = "\<lparr>user_id = lit ''42'', interaction_channel_id = Some (lit ''7''),
           interaction_guild_name = Some (lit ''G'')\<rparr>"
  have a: "admin_id ?cfg = [] \<or> user_id ?ia = admin_id ?cfg" by simp
  have b: "interaction_channel_id ?ia = Some (lit ''7'')" by simp
  have c: "1 \<le> chat_max_length ?cfg" by (simp add: default_config_def)
  have cap: "1 \<le> msg_max_chars ?cfg" by (simp add: default_config_def)
  have d: "int (length (seed_greeting (reset_guild_name ?ia))) \<le> msg_max_chars ?cfg"
    by (simp add: default_config_def seed_greeting_def reset_guild_name_def lit_def)
  have e: "seed_greeting (reset_guild_name ?ia) = lit ''*You joined the chat! - You joined G.*''"
    by (simp add: seed_greeting_def reset_guild_name_def lit_def)
  let ?w = "empty_world\<lparr>store := [lit ''7'' \<mapsto> [\<lparr>role = User, content = lit ''hi''\<rparr>]]\<rparr>"
  from reset_reseeds [OF a b c cap, of ?w] d
  have "fst (reset_command ?cfg ?w ?ia) = lit ''Chat reset.''"
    and "load_channel (snd (reset_command ?cfg ?w ?ia)) (lit ''7'')
           = [\<lparr>role = Assistant, content = seed_greeting (reset_guild_name ?ia)\<rparr>]"
    by blast+
  moreover have "int (length (seed_greeting (lit ''G''))) \<le> msg_max_chars ?cfg"
    using d by (simp add: reset_guild_name_def)
  ultimately show ?thesis using c cap unfolding e by simp
qed

text \<open>
  Claim C7 as stated fails when the greeting is longer than the per-turn cap: with a cap of
  10 the stored turn holds the last 10 characters of the greeting.
\<close>

theorem reset_truncates_greeting_counterexample:
  "fst (reset_command (default_config\<lparr>admin_id := lit ''42'', msg_max_chars := 10\<rparr>) empty_world
          \<lparr>user_id = lit ''42'', interaction_channel_id = Some (lit ''7''),
           interaction_guild_name = Some (lit ''G'')\<rparr>) = lit ''Chat reset.'' \<and>
   load_channel (snd (reset_command (default_config\<lparr>admin_id := lit ''42'', msg_max_chars := 10\<rparr>)
          empty_world
          \<lparr>user_id = lit ''42'', interaction_channel_id = Some (lit ''7''),
           interaction_guild_name = Some (lit ''G'')\<rparr>)) (lit ''7'')
     = [\<lparr>role = Assistant, content = lit ''joined G.*''\<rparr>] \<and>
   load_channel (snd (reset_command (default_config\<lparr>admin_id := lit ''42'', msg_max_chars := 10\<rparr>)
          empty_world
          \<lparr>user_id = lit ''42'', interaction_channel_id = Some (lit ''7''),
           interaction_guild_name = Some (lit ''G'')\<rparr>)) (lit ''7'')
     \<noteq> [\<lparr>role = Assistant, content = seed_greeting (lit ''G'')\<rparr>]"
proof -
  let ?cfg = "default_config\<lparr>admin_id := lit ''42'', msg_max_chars := 10\<rparr>"
  let ?ia = "\<lparr>user_id = lit ''42'', interaction_channel_id = Some (lit ''7''),
           interaction_guild_name = Some (lit ''G'')\<rparr>"
  have a: "admin_id ?cfg = [] \<or> user_id ?ia = admin_id ?cfg" by simp
  have b: "interaction_channel_id ?ia = Some (lit ''7'')" by simp
  have c: "1 \<le> chat_max_length ?cfg" by (simp add: default_config_def)
  have t: "truncated ?cfg (seed_greeting (reset_guild_name ?ia)) = lit ''joined G.*''"
    by (simp add: truncated_def slice_from_def seed_greeting_def reset_guild_name_def lit_def)
  have n: "lit ''joined G.*'' \<noteq> seed_greeting (lit ''G'')"
    by (simp add: seed_greeting_def lit_def)
  show ?thesis
    using reset_command_allowed [OF a b c, of empty_world] n unfolding t by simp
qed

section \<open>Bot.chat\<close>

lemma evict_suffix: "evict mx ms = Inr ks \<Longrightarrow> suffix ks ms"
  by (induction ms) (auto simp: suffix_Cons split: if_splits)

lemma save_message_result:
  assumes "save_message cfg w c m r = Inr w'"
  shows "w' = w \<or>
         (\<exists>ks. suffix ks (load_channel w c) \<and>
               load_channel w' c = ks @ [\<lparr>role = r, content = truncated cfg m\<rparr>])"
proof (cases "strip m = []")
  case True
  then show ?thesis using assms by (simp add: save_message_def)
next
  case False
  then obtain ks where ks: "evict (chat_max_length cfg) (load_channel w c) = Inr ks"
    and w': "w' = w\<lparr>store := (store w)(c \<mapsto> ks @ [\<lparr>role = r, content = truncated cfg m\<rparr>]),
                    redis_log := redis_log w @
                      [SET c (ks @ [\<lparr>role = r, content = truncated cfg m\<rparr>]) 604800]\<rparr>"
    using assms by (auto simp: save_message_def Let_def truncated_def split: sum.splits)
  from evict_suffix [OF ks] show ?thesis unfolding w' by auto
qed

lemma save_response_cases:
  assumes "save_response cfg w c r = Inr w'"
  shows "w' = w \<or> (r \<noteq> [] \<and> save_message cfg w c r Assistant = Inr w')"
  using assms by (auto simp: save_response_def split: if_splits)

lemma save_response_no_TypeError: "save_response cfg w c r \<noteq> Inl TypeError"
  by (simp add: save_response_def save_message_no_TypeError)

lemma save_response_empty: "save_response cfg w c [] = Inr w"
  by (simp add: save_response_def)

lemma chat_body_unfold:
  "chat_body cfg e w c =
     (let ms = trim (ctx cfg) (load_channel w c)
      in if backend cfg = lit ''ollama'' then
           if stream cfg then
             (case ollama_stream e ms of
                (parts, Some TypeError) \<Rightarrow> single_call cfg e w c ms
              | (parts, Some x) \<Rightarrow> (Inl x, w)
              | (parts, None) \<Rightarrow>
                  (case save_response cfg w c (concat parts) of
                     Inl x \<Rightarrow> (Inl x, w)
                   | Inr w' \<Rightarrow>
                       (Inr (if concat parts = [] then fallback_phrase else concat parts), w')))
           else single_call cfg e w c ms
         else
           (case openai_create e ms of
              Inl x \<Rightarrow> (Inr fallback_phrase, w)
            | Inr r \<Rightarrow>
                (case save_response cfg w c r of
                   Inl x \<Rightarrow> (Inr fallback_phrase, w)
                 | Inr w' \<Rightarrow> (Inr (if r = [] then fallback_phrase else r), w'))))"
  using save_response_no_TypeError [of cfg w c]
  by (auto simp: chat_body_def single_call_def Let_def
           split: prod.splits option.splits exn.splits sum.splits)


lemma single_call_cases:
  "(snd (single_call cfg e w c ms) = w \<and>
      (no_answer (ollama_chat e ms) \<longrightarrow> fst (single_call cfg e w c ms) \<in> range Inl \<union> {Inr fallback_phrase})) \<or>
   (\<exists>r. r \<noteq> [] \<and> ollama_chat e ms = Inr r \<and> fst (single_call cfg e w c ms) = Inr r \<and>
        save_message cfg w c r Assistant = Inr (snd (single_call cfg e w c ms)))"
proof (cases "ollama_chat e ms")
  case (Inl x)
  then show ?thesis by (simp add: single_call_def)
next
  case (Inr r)
  show ?thesis
  proof (cases "r = []")
    case True
    then show ?thesis using Inr by (simp add: single_call_def save_response_empty)
  next
    case False
    then show ?thesis using Inr
      by (cases "save_message cfg w c r Assistant")
         (simp_all add: single_call_def save_response_def no_answer_def)
  qed
qed

lemma chat_cases:
  "(snd (chat cfg e w c) = w \<and>
      (backend_fails cfg e (trim (ctx cfg) (load_channel w c)) \<longrightarrow>
         fst (chat cfg e w c) = fallback_phrase)) \<or>
   (\<not> backend_fails cfg e (trim (ctx cfg) (load_channel w c)) \<and>
    (\<exists>r. r \<noteq> [] \<and> fst (chat cfg e w c) = r \<and>
        save_message cfg w c r Assistant = Inr (snd (chat cfg e w c))))"
proof -
  let ?ms = "trim (ctx cfg) (load_channel w c)"
  have single: "chat_body cfg e w c = single_call cfg e w c ?ms \<Longrightarrow>
      backend_fails cfg e ?ms = no_answer (ollama_chat e ?ms) \<Longrightarrow> ?thesis"
    using single_call_cases [of cfg e w c ?ms]
    by (auto simp: chat_def no_answer_def split: prod.splits sum.splits)
  show ?thesis
  proof (cases "backend cfg = lit ''ollama''")
    case ollama: True
    show ?thesis
    proof (cases "stream cfg")
      case False
      then show ?thesis using ollama
        by (intro single) (simp_all add: chat_body_unfold backend_fails_def)
    next
      case True
      obtain parts ending where st: "ollama_stream e ?ms = (parts, ending)"
        by (cases "ollama_stream e ?ms")
      show ?thesis
      proof (cases ending)
        case None
        show ?thesis
        proof (cases "concat parts = []")
          case empty: True
          show ?thesis using ollama \<open>stream cfg\<close> st None
            by (simp add: chat_def chat_body_unfold backend_fails_def empty save_response_empty
                  del: concat_eq_Nil_conv)
        next
          case answer: False
          show ?thesis using ollama \<open>stream cfg\<close> st None
            by (cases "save_message cfg w c (concat parts) Assistant")
               (simp_all add: chat_def chat_body_unfold backend_fails_def save_response_def
                  answer del: concat_eq_Nil_conv)
        qed
      next
        case (Some x)
        show ?thesis
        proof (cases "x = TypeError")
          case True
          then show ?thesis using ollama \<open>stream cfg\<close> st Some
            by (intro single) (simp_all add: chat_body_unfold backend_fails_def)
        next
          case False
          then show ?thesis using ollama \<open>stream cfg\<close> st Some
            by (cases x) (simp_all add: chat_def chat_body_unfold backend_fails_def)
        qed
      qed
    qed
  next
    case other: False
    show ?thesis
    proof (cases "openai_create e ?ms")
      case (Inl x)
      then show ?thesis using other
        by (simp add: chat_def chat_body_unfold backend_fails_def no_answer_def)
    next
      case (Inr r)
      show ?thesis
      proof (cases "r = []")
        case True
        then show ?thesis using other Inr
          by (simp add: chat_def chat_body_unfold backend_fails_def no_answer_def
                save_response_empty)
      next
        case False
        then show ?thesis using other Inr
          by (cases "save_message cfg w c r Assistant")
             (simp_all add: chat_def chat_body_unfold backend_fails_def no_answer_def
                save_response_def)
      qed
    qed
  qed
qed

text \<open>
  Claim C8. One call of \<open>chat\<close> leaves the world as it was, or as one call of
  \<open>save_message\<close> with the non-empty answer it returns and the role assistant leaves it: at
  most one assistant turn is appended. When the backend call fails or yields nothing, also
  when the streaming shape is not supported and the single call made instead fails or
  yields nothing, the world is as it was: nothing is appended.
\<close>

theorem chat_appends_at_most_once:
  "(snd (chat cfg e w c) = w \<or>
    (\<exists>r ks. r \<noteq> [] \<and> fst (chat cfg e w c) = r \<and>
         save_message cfg w c r Assistant = Inr (snd (chat cfg e w c)) \<and>
         suffix ks (load_channel w c) \<and>
         load_channel (snd (chat cfg e w c)) c
           = ks @ [\<lparr>role = Assistant, content = truncated cfg r\<rparr>])) \<and>
   (backend_fails cfg e (trim (ctx cfg) (load_channel w c)) \<longrightarrow> snd (chat cfg e w c) = w)"
  using chat_cases [of cfg e w c]
        save_message_result [of cfg w c _ Assistant "snd (chat cfg e w c)"]
  by blast

text \<open>
  Claim C9. When the backend call fails or yields nothing, \<open>chat\<close> returns the fallback
  phrase; and whatever exception leaves the body of its \<open>try\<close>, \<open>chat\<close> returns the
  fallback phrase and raises nothing.
\<close>

theorem chat_failure_gives_fallback:
  "(backend_fails cfg e (trim (ctx cfg) (load_channel w c)) \<longrightarrow>
      fst (chat cfg e w c) = fallback_phrase) \<and>
   (\<forall>x. fst (chat_body cfg e w c) = Inl x \<longrightarrow> fst (chat cfg e w c) = fallback_phrase)"
proof -
  have "fst (chat cfg e w c) = fallback_phrase" if "fst (chat_body cfg e w c) = Inl x" for x
    using that by (cases "chat_body cfg e w c") (simp add: chat_def)
  then show ?thesis using chat_cases [of cfg e w c] by blast
qed


lemma chat_answering:
  "chat default_config answering_env w c =
     (lit ''ok'',
      w\<lparr>store := (store w)(c \<mapsto> kept_turns default_config (load_channel w c)
                @ [\<lparr>role = Assistant, content = lit ''ok''\<rparr>]),
        redis_log := redis_log w @
          [SET c (kept_turns default_config (load_channel w c)
                    @ [\<lparr>role = Assistant, content = lit ''ok''\<rparr>]) 604800]\<rparr>)"
proof -
  have nb: "strip (lit ''ok'') \<noteq> []" by (simp add: lit_nonblank isspace_def)
  have mx: "1 \<le> chat_max_length default_config" by (simp add: default_config_def)
  have tr: "truncated default_config (lit ''ok'') = lit ''ok''"
    by (simp add: truncated_def default_config_def lit_def)
  have ne: "lit ''ok'' \<noteq> []" by (simp add: lit_def)
  have be: "backend default_config = lit ''ollama''" "\<not> stream default_config"
    by (simp_all add: default_config_def)
  show ?thesis
    by (simp add: chat_def chat_body_unfold be single_call_def answering_env_def
          save_response_def ne save_message_appends [OF nb mx] stored_turn_def tr)
qed

lemma failing_env_fails:
  "backend_fails (default_config\<lparr>stream := True\<rparr>) failing_env ms"
  by (simp add: backend_fails_def default_config_def failing_env_def no_answer_def)

text \<open>
  Streaming not supported and the single call failing: the store is untouched. A backend
  that answers: the answer is saved once.
\<close>

theorem chat_appends_at_most_once_witness:
  "backend_fails (default_config\<lparr>stream := True\<rparr>) failing_env
     (trim (ctx (default_config\<lparr>stream := True\<rparr>)) (load_channel empty_world (lit ''5''))) \<and>
   snd (chat (default_config\<lparr>stream := True\<rparr>) failing_env empty_world (lit ''5'')) = empty_world \<and>
   snd (chat default_config answering_env empty_world (lit ''5'')) \<noteq> empty_world \<and>
   save_message default_config empty_world (lit ''5'') (lit ''ok'') Assistant
     = Inr (snd (chat default_config answering_env empty_world (lit ''5''))) \<and>
   load_channel (snd (chat default_config answering_env empty_world (lit ''5''))) (lit ''5'')
     = [\<lparr>role = Assistant, content = lit ''ok''\<rparr>]"
proof -
  have changed: "snd (chat default_config answering_env empty_world (lit ''5'')) \<noteq> empty_world"
    and answer: "fst (chat default_config answering_env empty_world (lit ''5'')) = lit ''ok''"
    and stored: "load_channel (snd (chat default_config answering_env empty_world (lit ''5''))) (lit ''5'')
      = [\<lparr>role = Assistant, content = lit ''ok''\<rparr>]"
    unfolding chat_answering
    by (auto simp: empty_world_def load_channel_def kept_turns_def last_n_def
          dest: arg_cong [where f = redis_log])
  from chat_appends_at_most_once [of default_config answering_env empty_world "lit ''5''"] changed
  have "save_message default_config empty_world (lit ''5'') (lit ''ok'') Assistant
     = Inr (snd (chat default_config answering_env empty_world (lit ''5'')))"
    unfolding answer by auto
  then show ?thesis
    using chat_appends_at_most_once
            [of "default_config\<lparr>stream := True\<rparr>" failing_env empty_world "lit ''5''"]
          failing_env_fails changed stored
    by blast
qed

text \<open>
  The same failing backend: the caller gets the fallback phrase.
\<close>

theorem chat_failure_gives_fallback_witness:
  "backend_fails (default_config\<lparr>stream := True\<rparr>) failing_env
     (trim (ctx (default_config\<lparr>stream := True\<rparr>)) (load_channel empty_world (lit ''5''))) \<and>
   fst (chat (default_config\<lparr>stream := True\<rparr>) failing_env empty_world (lit ''5''))
     = lit ''I am sorry, I am unable to respond at the moment.''"
  using chat_failure_gives_fallback
          [of "default_config\<lparr>stream := True\<rparr>" failing_env empty_world "lit ''5''"]
        failing_env_fails
  by (simp add: fallback_phrase_def)

section \<open>Bot.on_message\<close>

lemma message_line_nonblank: "strip (message_line msg c) \<noteq> []"
  by (rule strip_nonblank) (simp_all add: message_line_def Let_def lit_def isspace_def)

lemma save_message_log:
  assumes "save_message cfg w c m r = Inr w'"
  shows "\<forall>k. DEL k \<in> set (redis_log w') \<longrightarrow> DEL k \<in> set (redis_log w)"
  using assms
  by (auto simp: save_message_def Let_def split: if_splits sum.splits)

lemma chat_log:
  "\<forall>k. DEL k \<in> set (redis_log (snd (chat cfg e w c))) \<longrightarrow> DEL k \<in> set (redis_log w)"
  using chat_cases [of cfg e w c] save_message_log [of cfg w c _ Assistant "snd (chat cfg e w c)"]
  by auto

lemma deliver_log [simp]: "redis_log (deliver e w s) = redis_log w"
  by (simp add: deliver_def)

lemma on_message_reaches_reset_check:
  assumes "ready w"
    and "chat_channel_id cfg = [] \<or> channel_id msg = chat_channel_id cfg"
    and "\<not> from_self msg" "\<not> is_dm msg"
    and "\<not> (not_for_us msg \<and> random_above)"
    and "processed_content cfg msg = lit ''RESET''"
    and "author_id msg \<noteq> admin_id cfg"
  shows "on_message cfg e random_above w msg =
     (case (if not_for_us msg
            then save_message cfg w (channel_id msg) (message_line msg (message_content msg)) User
            else Inr w) of
        Inl x \<Rightarrow> Inl x
      | Inr w0 \<Rightarrow> Inr (respond cfg e w0 msg (denied_text msg)))"
proof -
  have "lit ''RESET'' \<noteq> []" by (simp add: lit_def)
  then show ?thesis
    using assms
    unfolding on_message_def Let_def
    apply (fold not_for_us_def)
    apply (fold processed_content_def)
    apply (auto split: sum.splits)
    done
qed

text \<open>
  Claim C10, amended. For a guild message that passes the gates of the handler (the bot is
  ready, the channel filter lets the message through, the bot did not write it, and it is
  addressed to the bot or the random draw lets it through), whose processed content is
  exactly \<open>RESET\<close> and whose author is not the admin, with a maximum turn count of at least
  1: the session is not flushed (no \<open>DEL\<close> is sent), the line saved as the user's turn
  carries the denial text in place of \<open>RESET\<close>, \<open>chat\<close> runs on the session with that turn
  and its answer is sent to the channel.
\<close>

theorem reset_denied_becomes_ordinary_turn:
  assumes "ready w"
    and "chat_channel_id cfg = [] \<or> channel_id msg = chat_channel_id cfg"
    and "\<not> from_self msg" "\<not> is_dm msg"
    and "\<not> (not_for_us msg \<and> random_above)"
    and "processed_content cfg msg = lit ''RESET''"
    and "author_id msg \<noteq> admin_id cfg"
    and "1 \<le> chat_max_length cfg"
  shows "\<exists>w0 w1 response w2.
     (if not_for_us msg
      then save_message cfg w (channel_id msg) (message_line msg (message_content msg)) User = Inr w0
      else w0 = w) \<and>
     save_message cfg w0 (channel_id msg) (message_line msg (denied_text msg)) User = Inr w1 \<and>
     load_channel w1 (channel_id msg) =
       kept_turns cfg (load_channel w0 (channel_id msg))
         @ [\<lparr>role = User, content = truncated cfg (message_line msg (denied_text msg))\<rparr>] \<and>
     chat cfg e w1 (channel_id msg) = (response, w2) \<and>
     on_message cfg e random_above w msg = Inr (deliver e w2 response) \<and>
     (\<forall>k. DEL k \<in> set (redis_log (deliver e w2 response)) \<longrightarrow> DEL k \<in> set (redis_log w))"
proof -
  let ?c = "channel_id msg"
  let ?ctx_save = "save_message cfg w ?c (message_line msg (message_content msg)) User"
  obtain w0 where w0: "if not_for_us msg then ?ctx_save = Inr w0 else w0 = w"
    using save_message_appends [OF message_line_nonblank assms(8), of w ?c msg "message_content msg" User]
    by (cases "not_for_us msg") auto
  then have pre: "(if not_for_us msg then ?ctx_save else Inr w) = Inr w0"
    by (auto split: if_splits)
  have log0: "\<forall>k. DEL k \<in> set (redis_log w0) \<longrightarrow> DEL k \<in> set (redis_log w)"
    using w0 save_message_log [of cfg w ?c _ User w0] by (auto split: if_splits)
  let ?w1 = "w0\<lparr>store := (store w0)(?c \<mapsto> kept_turns cfg (load_channel w0 ?c)
                 @ [stored_turn cfg (message_line msg (denied_text msg), User)]),
               redis_log := redis_log w0 @
                 [SET ?c (kept_turns cfg (load_channel w0 ?c)
                    @ [stored_turn cfg (message_line msg (denied_text msg), User)]) 604800]\<rparr>"
  have w1: "save_message cfg w0 ?c (message_line msg (denied_text msg)) User = Inr ?w1"
    by (rule save_message_appends [OF message_line_nonblank assms(8)])
  obtain response w2 where ch: "chat cfg e ?w1 ?c = (response, w2)"
    by (cases "chat cfg e ?w1 ?c")
  have run: "on_message cfg e random_above w msg = Inr (deliver e w2 response)"
    using on_message_reaches_reset_check [OF assms(1-7), of e] pre w1 ch
    by (simp add: respond_def)
  have log1: "\<forall>k. DEL k \<in> set (redis_log ?w1) \<longrightarrow> DEL k \<in> set (redis_log w0)" by simp
  have "\<forall>k. DEL k \<in> set (redis_log w2) \<longrightarrow> DEL k \<in> set (redis_log ?w1)"
    using chat_log [of cfg e ?w1 ?c] ch by simp
  then have log: "\<forall>k. DEL k \<in> set (redis_log (deliver e w2 response)) \<longrightarrow> DEL k \<in> set (redis_log w)"
    using log0 log1 by simp
  have "load_channel ?w1 ?c = kept_turns cfg (load_channel w0 ?c)
         @ [\<lparr>role = User, content = truncated cfg (message_line msg (denied_text msg))\<rparr>]"
    by (simp add: stored_turn_def)
  then show ?thesis using w0 w1 ch run log by blast
qed


lemma processed_plain:
  assumes "s \<noteq> []" "\<not> isspace (hd s)" "\<not> isspace (last s)" "hd (self_mention cfg) \<notin> set s"
    "self_mention cfg \<noteq> []" "message_content msg = s"
  shows "processed_content cfg msg = s"
  using assms by (simp add: processed_content_def replace_def replace_from_id strip_id)

lemma reset_message_processed: "processed_content default_config reset_message = lit ''RESET''"
  by (rule processed_plain)
     (simp_all add: reset_message_def default_config_def lit_def isspace_def)

lemma reset_message_addressed: "\<not> not_for_us reset_message"
  by (simp add: not_for_us_def reset_message_def lit_def)

lemma write_response_short:
  assumes "s \<noteq> []" "\<not> isspace (hd s)" "\<not> isspace (last s)" "64 \<notin> set s" "length s < 2000"
  shows "write_response id s = [\<lparr>body = s, reference = True\<rparr>]"
  using assms
  by (simp add: write_response_def write_trace_def delivered_def sanitize_id Let_def send_of_def)

text \<open>
  User 7 answers a message of the bot with \<open>RESET\<close>: the denial line and the answer \<open>ok\<close> are
  stored, and \<open>ok\<close> is sent.
\<close>

theorem reset_denied_becomes_ordinary_turn_witness:
  "ready empty_world \<and> chat_channel_id default_config = [] \<and> \<not> from_self reset_message \<and>
   \<not> is_dm reset_message \<and> \<not> not_for_us reset_message \<and>
   processed_content default_config reset_message = lit ''RESET'' \<and>
   author_id reset_message \<noteq> admin_id default_config \<and> 1 \<le> chat_max_length default_config \<and>
   map_sum id (\<lambda>w. load_channel w (lit ''5''))
       (on_message default_config answering_env True empty_world reset_message)
     = Inr [\<lparr>role = User, content = message_line reset_message (denied_text reset_message)\<rparr>,
            \<lparr>role = Assistant, content = lit ''ok''\<rparr>] \<and>
   map_sum id outbox (on_message default_config answering_env True empty_world reset_message)
     = Inr [\<lparr>body = lit ''ok'', reference = True\<rparr>]"
proof -
  let ?line = "message_line reset_message (denied_text reset_message)"
  have h1: "ready empty_world" by (simp add: empty_world_def)
  have h2: "chat_channel_id default_config = [] \<or> channel_id reset_message = chat_channel_id default_config"
    by (simp add: default_config_def)
  have h3: "\<not> from_self reset_message" and h4: "\<not> is_dm reset_message"
    by (simp_all add: reset_message_def)
  have h5: "\<not> (not_for_us reset_message \<and> True)" by (simp add: reset_message_addressed)
  note h6 = reset_message_processed
  have h7: "author_id reset_message \<noteq> admin_id default_config"
    by (simp add: reset_message_def default_config_def lit_def)
  have h8: "1 \<le> chat_max_length default_config" by (simp add: default_config_def)
  have c: "channel_id reset_message = lit ''5''" by (simp add: reset_message_def)
  have short: "truncated default_config ?line = ?line"
    by (rule truncated_short)
       (simp add: message_line_def denied_text_def reset_message_def default_config_def lit_def)
  from reset_denied_becomes_ordinary_turn [OF h1 h2 h3 h4 h5 h6 h7 h8, of answering_env]
  obtain w0 w1 response w2 where
    w0: "w0 = empty_world"
    and w1: "save_message default_config w0 (lit ''5'') ?line User = Inr w1"
    and l1: "load_channel w1 (lit ''5'') =
       kept_turns default_config (load_channel w0 (lit ''5''))
         @ [\<lparr>role = User, content = truncated default_config ?line\<rparr>]"
    and ch: "chat default_config answering_env w1 (lit ''5'') = (response, w2)"
    and run: "on_message default_config answering_env True empty_world reset_message
                = Inr (deliver answering_env w2 response)"
    unfolding c using reset_message_addressed by auto
  have l1': "load_channel w1 (lit ''5'') = [\<lparr>role = User, content = ?line\<rparr>]"
    using l1 by (simp add: w0 short empty_world_def load_channel_def kept_turns_def last_n_def)
  have o1: "outbox w1 = []"
    using w1 unfolding w0 save_message_appends [OF message_line_nonblank h8]
    by (auto simp: empty_world_def)
  have r: "response = lit ''ok''" and l2: "load_channel w2 (lit ''5'')
      = [\<lparr>role = User, content = ?line\<rparr>, \<lparr>role = Assistant, content = lit ''ok''\<rparr>]"
    and o2: "outbox w2 = []"
    using ch l1' o1 unfolding chat_answering
    by (auto simp: kept_turns_def last_n_def default_config_def)
  have wr: "write_response id (lit ''ok'') = [\<lparr>body = lit ''ok'', reference = True\<rparr>]"
    by (rule write_response_short) (simp_all add: lit_def isspace_def)
  have "load_channel (deliver answering_env w2 response) (lit ''5'')
          = [\<lparr>role = User, content = ?line\<rparr>, \<lparr>role = Assistant, content = lit ''ok''\<rparr>]"
    using l2 by (simp add: deliver_def load_channel_def)
  moreover have "outbox (deliver answering_env w2 response) = [\<lparr>body = lit ''ok'', reference = True\<rparr>]"
    using o2 wr by (simp add: deliver_def r answering_env_def)
  ultimately show ?thesis
    using h1 h3 h4 h6 h7 h8 reset_message_addressed run
    by (simp add: default_config_def)
qed

text \<open>
  Claim C10 as stated covers every guild message with the processed content \<open>RESET\<close>: one
  that does not mention the bot is saved as it is, with \<open>RESET\<close> in its line, and nothing
  is sent (the usual outcome of the random draw).
\<close>

theorem reset_unaddressed_counterexample:
  "processed_content default_config (reset_message\<lparr>reply_to := None, mentions_bot := False\<rparr>)
     = lit ''RESET'' \<and>
   author_id (reset_message\<lparr>reply_to := None, mentions_bot := False\<rparr>) \<noteq> admin_id default_config \<and>
   \<not> is_dm (reset_message\<lparr>reply_to := None, mentions_bot := False\<rparr>) \<and>
   map_sum id (\<lambda>w. load_channel w (lit ''5''))
       (on_message default_config answering_env True empty_world
          (reset_message\<lparr>reply_to := None, mentions_bot := False\<rparr>))
     = Inr [\<lparr>role = User,
             content = message_line (reset_message\<lparr>reply_to := None, mentions_bot := False\<rparr>)
                         (lit ''RESET'')\<rparr>] \<and>
   map_sum id outbox
       (on_message default_config answering_env True empty_world
          (reset_message\<lparr>reply_to := None, mentions_bot := False\<rparr>))
     = Inr []"
proof -
  let ?m = "reset_message\<lparr>reply_to := None, mentions_bot := False\<rparr>"
  let ?line = "message_line ?m (lit ''RESET'')"
  have p: "processed_content default_config ?m = lit ''RESET''"
    by (rule processed_plain)
       (simp_all add: reset_message_def default_config_def lit_def isspace_def)
  have a: "author_id ?m \<noteq> admin_id default_config"
    by (simp add: reset_message_def default_config_def lit_def)
  have h8: "1 \<le> chat_max_length default_config" by (simp add: default_config_def)
  have short: "truncated default_config ?line = ?line"
    by (rule truncated_short)
       (simp add: message_line_def reset_message_def default_config_def lit_def)
  have mc: "message_content ?m = lit ''RESET''" "channel_id ?m = lit ''5''"
    by (simp_all add: reset_message_def)
  have "on_message default_config answering_env True empty_world ?m =
      save_message default_config empty_world (lit ''5'') ?line User"
    by (simp add: on_message_def Let_def mc save_message_appends [OF message_line_nonblank h8])
       (simp add: reset_message_def default_config_def empty_world_def)
  then show ?thesis
    using p a
    by (simp add: save_message_appends [OF message_line_nonblank h8] stored_turn_def short
          kept_turns_def last_n_def load_channel_def empty_world_def)
       (simp add: reset_message_def)
qed

end
